theory Spec2Isabelle
  imports Main "HOL-Library.Multiset"
begin

section \<open>Values exchanged with the HTTP layer\<close>

text \<open>
  A request body is the value \<open>request.json\<close> yields: a parsed JSON document. Numbers
  are the integers (JSON fractions are outside the model); an object is the Python dict
  as an association list with distinct keys, looked up with \<open>map_of\<close>.
\<close>

datatype json =
    JNull
  | JBool bool
  | JNum int
  | JStr string
  | JArr "json list"
  | JObj "(string \<times> json) list"

text \<open>Python's truth value of a parsed JSON value (\<open>not x\<close> is its negation).\<close>

fun truthy :: "json \<Rightarrow> bool" where
  "truthy JNull = False"
| "truthy (JBool b) = b"
| "truthy (JNum n) = (n \<noteq> 0)"
| "truthy (JStr s) = (s \<noteq> [])"
| "truthy (JArr xs) = (xs \<noteq> [])"
| "truthy (JObj kvs) = (kvs \<noteq> [])"

text \<open>\<open>type(x).__name__\<close>, as it appears in the messages of the interpreter.\<close>

fun py_type_name :: "json \<Rightarrow> string" where
  "py_type_name JNull = ''NoneType''"
| "py_type_name (JBool b) = ''bool''"
| "py_type_name (JNum n) = ''int''"
| "py_type_name (JStr s) = ''str''"
| "py_type_name (JArr xs) = ''list''"
| "py_type_name (JObj kvs) = ''dict''"

text \<open>
  The exceptions the handlers can raise. \<open>HTTPException code description\<close> is what
  \<open>abort(code, description=...)\<close> raises; in Python it is a subclass of
  \<open>Exception\<close>, like the three others.
\<close>

datatype exn =
    HTTPException nat string
  | KeyError string
  | TypeError string
  | AttributeError string
  | ValueError string

text \<open>\<open>x.get(k)\<close>: a dict answers (\<open>None\<close> for a missing key), anything else has no \<open>get\<close>.\<close>

fun json_get :: "json \<Rightarrow> string \<Rightarrow> exn + json" where
  "json_get (JObj kvs) k = Inr (case map_of kvs k of None \<Rightarrow> JNull | Some v \<Rightarrow> v)"
| "json_get x k =
     Inl (AttributeError ([CHR 0x27] @ py_type_name x @ [CHR 0x27] @ '' object has no attribute ''
            @ [CHR 0x27] @ ''get'' @ [CHR 0x27]))"

text \<open>\<open>x[k]\<close> with a string key: a dict answers or raises KeyError, anything else TypeError.\<close>

fun subscript :: "json \<Rightarrow> string \<Rightarrow> exn + json" where
  "subscript (JObj kvs) k = (case map_of kvs k of None \<Rightarrow> Inl (KeyError k) | Some v \<Rightarrow> Inr v)"
| "subscript (JStr s) k = Inl (TypeError ''string indices must be integers'')"
| "subscript (JArr xs) k = Inl (TypeError ''list indices must be integers or slices, not str'')"
| "subscript x k =
     Inl (TypeError ([CHR 0x27] @ py_type_name x @ [CHR 0x27] @ '' object is not subscriptable''))"

text \<open>
  \<open>for v in x\<close>: a list yields its items, a dict its keys, a string its characters;
  nothing else is iterable.
\<close>

fun py_iter :: "json \<Rightarrow> exn + json list" where
  "py_iter (JArr xs) = Inr xs"
| "py_iter (JObj kvs) = Inr (map (\<lambda>kv. JStr (fst kv)) kvs)"
| "py_iter (JStr s) = Inr (map (\<lambda>c. JStr [c]) s)"
| "py_iter x =
     Inl (TypeError ([CHR 0x27] @ py_type_name x @ [CHR 0x27] @ '' object is not iterable''))"

text \<open>Decimal digits of a natural number and of an integer, as \<open>str\<close> prints them.\<close>

fun digits :: "nat \<Rightarrow> string" where
  "digits n = (if n < 10 then [char_of (48 + n)] else digits (n div 10) @ [char_of (48 + n mod 10)])"

declare digits.simps [simp del]

definition str_int :: "int \<Rightarrow> string" where
  "str_int i = (if i < 0 then CHR ''-'' # digits (nat (- i)) else digits (nat i))"

text \<open>
  \<open>repr\<close> of a string of ASCII characters. Python delimits it with single quotes,
  unless the string holds a single quote and no double quote; it escapes the delimiter and
  the backslash, writes tab, newline and carriage return as \<open>\t\<close>, \<open>\n\<close>, \<open>\r\<close>
  and any other control character as \<open>\xhh\<close>.
\<close>

definition hex2 :: "nat \<Rightarrow> string" where
  "hex2 n = [''0123456789abcdef'' ! (n div 16 mod 16), ''0123456789abcdef'' ! (n mod 16)]"

definition repr_char :: "char \<Rightarrow> char \<Rightarrow> string" where
  "repr_char q c =
     (if c = q \<or> c = CHR 0x5C then [CHR 0x5C, c]
      else if c = CHR 0x09 then [CHR 0x5C, CHR ''t'']
      else if c = CHR 0x0A then [CHR 0x5C, CHR ''n'']
      else if c = CHR 0x0D then [CHR 0x5C, CHR ''r'']
      else if (of_char c :: nat) < 32 \<or> (of_char c :: nat) = 127
      then [CHR 0x5C, CHR ''x''] @ hex2 (of_char c)
      else [c])"

definition repr_quote :: "string \<Rightarrow> char" where
  "repr_quote s =
     (if CHR 0x22 \<in> set s then CHR 0x27
      else if CHR 0x27 \<in> set s then CHR 0x22
      else CHR 0x27)"

definition py_repr_str :: "string \<Rightarrow> string" where
  "py_repr_str s = [repr_quote s] @ concat (map (repr_char (repr_quote s)) s) @ [repr_quote s]"

text \<open>
  \<open>repr(x)\<close> of a parsed JSON value, and \<open>str(x)\<close> as an f-string renders it: a
  string as it is, anything else as its \<open>repr\<close>.
\<close>

fun py_repr :: "json \<Rightarrow> string"
  and py_repr_items :: "json list \<Rightarrow> string"
  and py_repr_pairs :: "(string \<times> json) list \<Rightarrow> string" where
  "py_repr JNull = ''None''"
| "py_repr (JBool b) = (if b then ''True'' else ''False'')"
| "py_repr (JNum n) = str_int n"
| "py_repr (JStr s) = py_repr_str s"
| "py_repr (JArr xs) = ''['' @ py_repr_items xs @ '']''"
| "py_repr (JObj kvs) = ''{'' @ py_repr_pairs kvs @ ''}''"
| "py_repr_items [] = []"
| "py_repr_items (x # xs) = py_repr x @ (if xs = [] then [] else '', '' @ py_repr_items xs)"
| "py_repr_pairs [] = []"
| "py_repr_pairs (kv # kvs) =
     py_repr_str (fst kv) @ '': '' @ py_repr (snd kv)
       @ (if kvs = [] then [] else '', '' @ py_repr_pairs kvs)"

fun py_str :: "json \<Rightarrow> string" where
  "py_str (JStr s) = s"
| "py_str x = py_repr x"

text \<open>The reason phrase of a status code, for the codes the handlers abort with.\<close>

definition status_name :: "nat \<Rightarrow> string" where
  "status_name c =
     (if c = 400 then ''Bad Request''
      else if c = 403 then ''Forbidden''
      else if c = 404 then ''Not Found''
      else ''Unknown Error'')"

text \<open>\<open>str(e)\<close> of an exception: an HTTPException prints code, name and description.\<close>

fun str_exn :: "exn \<Rightarrow> string" where
  "str_exn (HTTPException c d) = digits c @ '' '' @ status_name c @ '': '' @ d"
| "str_exn (KeyError k) = py_repr_str k"
| "str_exn (TypeError m) = m"
| "str_exn (AttributeError m) = m"
| "str_exn (ValueError m) = m"

section \<open>Model objects and the storage facade\<close>

text \<open>
  The package \<open>models\<close> (the classes User, Roadmap, Topic, Objectives, Resources and the
  object \<open>storage\<close>) is not among the sources. Its classes are records with the fields
  of the spec's data model. An id is an opaque string; \<open>created_at\<close> is a point on a
  linear time axis; titles, names and links keep whatever JSON value the payload gave. The
  collections \<open>user.roadmaps\<close>, \<open>roadmap.topic\<close>, \<open>topic.objectives\<close> and
  \<open>topic.resources\<close> are the children found through their parent id, so appending to
  one of them writes no field of its own.
\<close>

text \<open>
  Modelled from the spec: the class User of \<open>models\<close>, "id (unique), first_name,
  last_name, email (unique), hashed_password".
\<close>

record user =
  u_id :: string
  first_name :: "string option"
  last_name :: "string option"
  email :: "string option"
  hashed_password :: string

text \<open>
  Modelled from the spec: the class Roadmap of \<open>models\<close>, "id, user_id, title,
  introduction, additional_info, three boolean status flags, created_at"; the field names
  are the keyword arguments the handler passes.
\<close>

record roadmap =
  r_id :: string
  r_user_id :: json
  title :: json
  introduction :: json
  AdditionalInfo :: json
  planning :: bool
  in_progress :: bool
  completed :: bool
  created_at :: nat

text \<open>
  Modelled from the spec: the class Topic of \<open>models\<close>, "id, roadmap_id (parent),
  position, name, description, milestones".
\<close>

record topic =
  t_id :: string
  position :: int
  t_roadmap_id :: string
  t_name :: json
  description :: json
  milestones :: json

text \<open>Modelled from the spec: the class Objectives of \<open>models\<close>, "id, topic_id (parent), name".\<close>

record objective =
  o_id :: string
  o_name :: json
  o_topic_id :: string

text \<open>Modelled from the spec: the class Resources of \<open>models\<close>, "id, topic_id (parent), link".\<close>

record resource =
  s_id :: string
  link :: json
  s_topic_id :: string

text \<open>
  What one call of \<open>save()\<close> wrote. For a record with a parent the entry also notes
  whether the parent's record was in storage at that moment. The journal is an
  observation of the run: no handler reads it.
\<close>

datatype saved =
    SavedUser user
  | SavedRoadmap roadmap
  | SavedTopic topic bool
  | SavedObjective objective bool
  | SavedResource resource bool

text \<open>
  Modelled from the spec: the storage facade, "a generic object store keyed by entity type
  and id". Each entity type is a table, a list whose order is the order in which the store
  iterates. \<open>next_id\<close> counts the ids handed out so far by the constructors of the model
  classes.
\<close>

record world =
  users :: "user list"
  roadmaps :: "roadmap list"
  topics :: "topic list"
  objectives :: "objective list"
  resources :: "resource list"
  next_id :: nat
  journal :: "saved list"

text \<open>
  Modelled from the spec: how the store of \<open>models\<close> keeps a saved object. The record
  is written under its id: in place when the id is stored, at the end otherwise.
\<close>

fun upsert :: "('a \<Rightarrow> string) \<Rightarrow> 'a \<Rightarrow> 'a list \<Rightarrow> 'a list" where
  "upsert key x [] = [x]"
| "upsert key x (y # ys) = (if key y = key x then x # ys else y # upsert key x ys)"

text \<open>
  Modelled from the spec: \<open>storage.show(type, id)\<close> of \<open>models\<close>, the record of that
  id, or \<open>None\<close>.
\<close>

definition show_roadmap :: "world \<Rightarrow> string \<Rightarrow> roadmap option" where
  "show_roadmap w i = find (\<lambda>r. r_id r = i) (roadmaps w)"

text \<open>Modelled from the spec: \<open>storage.show("Topic", id)\<close>, used to read the journal only.\<close>

definition show_topic :: "world \<Rightarrow> string \<Rightarrow> topic option" where
  "show_topic w i = find (\<lambda>t. t_id t = i) (topics w)"

text \<open>
  Modelled from the spec: \<open>storage.show("User", id)\<close> of \<open>models\<close>. The id comes from
  the request as a JSON value; only a string is the id of a record.
\<close>

fun show_user :: "world \<Rightarrow> json \<Rightarrow> user option" where
  "show_user w (JStr i) = find (\<lambda>u. u_id u = i) (users w)"
| "show_user w x = None"

text \<open>
  Modelled from the spec: \<open>storage.fetch(type, parent_id)\<close> of \<open>models\<close>, the records
  of that parent, in the order in which the store iterates.
\<close>

definition fetch_topics :: "world \<Rightarrow> string \<Rightarrow> topic list" where
  "fetch_topics w rid = filter (\<lambda>t. t_roadmap_id t = rid) (topics w)"

text \<open>Modelled from the spec: \<open>storage.fetch("Objectives", topic_id)\<close>.\<close>

definition fetch_objectives :: "world \<Rightarrow> string \<Rightarrow> objective list" where
  "fetch_objectives w tid = filter (\<lambda>ob. o_topic_id ob = tid) (objectives w)"

text \<open>Modelled from the spec: \<open>storage.fetch("Resources", topic_id)\<close>.\<close>

definition fetch_resources :: "world \<Rightarrow> string \<Rightarrow> resource list" where
  "fetch_resources w tid = filter (\<lambda>rs. s_topic_id rs = tid) (resources w)"

text \<open>
  Modelled from the spec: \<open>obj.save()\<close> of \<open>models\<close>, one function for each class. It
  persists the object it is called on, and nothing else.
\<close>

definition save_user :: "user \<Rightarrow> world \<Rightarrow> world" where
  "save_user u w = w\<lparr>users := upsert u_id u (users w), journal := journal w @ [SavedUser u]\<rparr>"

text \<open>Modelled from the spec: \<open>roadmap.save()\<close>.\<close>

definition save_roadmap :: "roadmap \<Rightarrow> world \<Rightarrow> world" where
  "save_roadmap r w =
     w\<lparr>roadmaps := upsert r_id r (roadmaps w), journal := journal w @ [SavedRoadmap r]\<rparr>"

text \<open>Modelled from the spec: \<open>topic.save()\<close>.\<close>

definition save_topic :: "topic \<Rightarrow> world \<Rightarrow> world" where
  "save_topic t w =
     w\<lparr>topics := upsert t_id t (topics w),
       journal := journal w @ [SavedTopic t (show_roadmap w (t_roadmap_id t) \<noteq> None)]\<rparr>"

text \<open>Modelled from the spec: \<open>objective.save()\<close>.\<close>

definition save_objective :: "objective \<Rightarrow> world \<Rightarrow> world" where
  "save_objective ob w =
     w\<lparr>objectives := upsert o_id ob (objectives w),
       journal := journal w @ [SavedObjective ob (show_topic w (o_topic_id ob) \<noteq> None)]\<rparr>"

text \<open>Modelled from the spec: \<open>resource.save()\<close>.\<close>

definition save_resource :: "resource \<Rightarrow> world \<Rightarrow> world" where
  "save_resource rs w =
     w\<lparr>resources := upsert s_id rs (resources w),
       journal := journal w @ [SavedResource rs (show_topic w (s_topic_id rs) \<noteq> None)]\<rparr>"

section \<open>Responses\<close>

text \<open>
  A body is what \<open>jsonify\<close> was given. A model object stands for its \<open>to_dict()\<close>.
  \<open>Html\<close> is the page the framework itself answers with when no handler of the
  application takes the exception.
\<close>

datatype body =
    Json json
  | RoadmapList "roadmap list"
  | RoadmapDetail roadmap "objective list" "topic list" "resource list"
  | Html

record response =
  status :: nat
  content :: body

definition jsonify :: "json \<Rightarrow> nat \<Rightarrow> response" where
  "jsonify j c = \<lparr>status = c, content = Json j\<rparr>"

definition abort :: "nat \<Rightarrow> string \<Rightarrow> exn + 'a" where
  "abort c d = Inl (HTTPException c d)"

section \<open>The handlers\<close>

text \<open>
  A handler takes the request and the world and returns the world it leaves with either
  the response it returned or the exception that left it.
\<close>

type_synonym outcome = "(exn + response) \<times> world"

subsection \<open>PUT /update_roadmap_status/<roadmap_id>\<close>

text \<open>The body of the \<open>try\<close> statement.\<close>

definition update_roadmap_status_try :: "string \<Rightarrow> json \<Rightarrow> world \<Rightarrow> outcome" where
  "update_roadmap_status_try roadmap_id request_json w =
     (case show_roadmap w roadmap_id of
        None \<Rightarrow> (abort 404 ''Roadmap Not Found'', w)
      | Some roadmap \<Rightarrow>
          (case json_get request_json ''new_status'' of
             Inl e \<Rightarrow> (Inl e, w)
           | Inr new_status \<Rightarrow>
               if \<not> truthy new_status then (abort 403 ''Invalid Request body'', w)
               else
                 let roadmap' =
                       (if new_status = JStr ''planning''
                        then roadmap\<lparr>planning := True, in_progress := False, completed := False\<rparr>
                        else if new_status = JStr ''in_progress''
                        then roadmap\<lparr>in_progress := True, planning := False, completed := False\<rparr>
                        else if new_status = JStr ''completed''
                        then roadmap\<lparr>completed := True, planning := False, in_progress := False\<rparr>
                        else roadmap)
                 in (Inr (jsonify (JObj [(''message'',
                            JStr (''Roadmap status ('' @ py_str new_status
                                    @ '') updated successfully''))]) 200),
                     save_roadmap roadmap' w)))"

text \<open>\<open>except Exception as e\<close> takes every exception of the body, those of \<open>abort\<close> too.\<close>

definition update_roadmap_status :: "string \<Rightarrow> json \<Rightarrow> world \<Rightarrow> outcome" where
  "update_roadmap_status roadmap_id request_json w =
     (case update_roadmap_status_try roadmap_id request_json w of
        (Inl e, w') \<Rightarrow>
          (Inr (jsonify (JObj [(''error'', JStr (''An error occurred: '' @ str_exn e))]) 500), w')
      | (Inr r, w') \<Rightarrow> (Inr r, w'))"

subsection \<open>GET /roadmap/<roadmap_id>\<close>

definition view_roadmap :: "string \<Rightarrow> world \<Rightarrow> outcome" where
  "view_roadmap roadmap_id w =
     (case show_roadmap w roadmap_id of
        None \<Rightarrow> (Inr (jsonify (JObj [(''error'', JStr ''Roadmap not found'')]) 404), w)
      | Some roadmap \<Rightarrow>
          let tps = fetch_topics w (r_id roadmap);
              obs = concat (map (\<lambda>i. fetch_objectives w (t_id i)) tps);
              rss = concat (map (\<lambda>i. fetch_resources w (t_id i)) tps)
          in (Inr \<lparr>status = 200,
                   content = RoadmapDetail roadmap obs (sort_key position tps) rss\<rparr>, w))"

subsection \<open>GET /dashboard\<close>

text \<open>
  \<open>sorted(xs, key=f, reverse=True)\<close>: descending, and records of equal key keep the
  order they came in.
\<close>

definition sorted_reverse :: "('a \<Rightarrow> 'k::linorder) \<Rightarrow> 'a list \<Rightarrow> 'a list" where
  "sorted_reverse f xs = rev (sort_key f (rev xs))"

text \<open>
  \<open>storage.all("Roadmap").values()\<close> is the roadmap table, in the order in which the
  store iterates.
\<close>

definition dashboard :: "world \<Rightarrow> outcome" where
  "dashboard w = (Inr \<lparr>status = 200, content = RoadmapList (sorted_reverse created_at (roadmaps w))\<rparr>, w)"

subsection \<open>POST /create_roadmap\<close>

text \<open>
  Modelled from the spec: the constructors of the model classes give each object a new id
  ("id (unique)"). \<open>uuid\<close> names the ids in the order they are handed out and
  \<open>next_id\<close> counts them; \<open>now\<close> is the clock the Roadmap's \<open>created_at\<close> is read from.
\<close>

fun save_objectives :: "(nat \<Rightarrow> string) \<Rightarrow> string \<Rightarrow> json list \<Rightarrow> world \<Rightarrow> world" where
  "save_objectives uuid tid [] w = w"
| "save_objectives uuid tid (objective_text # rest) w =
     save_objectives uuid tid rest
       (save_objective \<lparr>o_id = uuid (next_id w), o_name = objective_text, o_topic_id = tid\<rparr>
          (w\<lparr>next_id := Suc (next_id w)\<rparr>))"

fun save_resources :: "(nat \<Rightarrow> string) \<Rightarrow> string \<Rightarrow> json list \<Rightarrow> world \<Rightarrow> world" where
  "save_resources uuid tid [] w = w"
| "save_resources uuid tid (resource_link # rest) w =
     save_resources uuid tid rest
       (save_resource \<lparr>s_id = uuid (next_id w), link = resource_link, s_topic_id = tid\<rparr>
          (w\<lparr>next_id := Suc (next_id w)\<rparr>))"

text \<open>One pass of the loop over the topic entries; \<open>None\<close> when no exception left it.\<close>

definition topic_step :: "(nat \<Rightarrow> string) \<Rightarrow> string \<Rightarrow> int \<Rightarrow> json \<Rightarrow> world \<Rightarrow> exn option \<times> world" where
  "topic_step uuid rid pos topic_data w =
     (case subscript topic_data ''TopicName'' of
        Inl e \<Rightarrow> (Some e, w)
      | Inr nm \<Rightarrow>
     (case subscript topic_data ''Descriptions'' of
        Inl e \<Rightarrow> (Some e, w)
      | Inr ds \<Rightarrow>
     (case subscript topic_data ''Milestones'' of
        Inl e \<Rightarrow> (Some e, w)
      | Inr ms \<Rightarrow>
          let tp = \<lparr>t_id = uuid (next_id w), position = pos, t_roadmap_id = rid,
                    t_name = nm, description = ds, milestones = ms\<rparr>;
              w1 = w\<lparr>next_id := Suc (next_id w)\<rparr>
          in
     (case subscript topic_data ''LearningObjectives'' of
        Inl e \<Rightarrow> (Some e, w1)
      | Inr lo \<Rightarrow>
     (case py_iter lo of
        Inl e \<Rightarrow> (Some e, w1)
      | Inr objective_texts \<Rightarrow>
          let w2 = save_objectives uuid (t_id tp) objective_texts w1 in
     (case subscript topic_data ''Resources'' of
        Inl e \<Rightarrow> (Some e, w2)
      | Inr rl \<Rightarrow>
     (case py_iter rl of
        Inl e \<Rightarrow> (Some e, w2)
      | Inr resource_links \<Rightarrow>
          let w3 = save_resources uuid (t_id tp) resource_links w2
          in (None, save_topic tp w3))))))))"

fun topics_loop :: "(nat \<Rightarrow> string) \<Rightarrow> string \<Rightarrow> int \<Rightarrow> json list \<Rightarrow> world \<Rightarrow> exn option \<times> world" where
  "topics_loop uuid rid pos [] w = (None, w)"
| "topics_loop uuid rid pos (topic_data # rest) w =
     (case topic_step uuid rid pos topic_data w of
        (Some e, w') \<Rightarrow> (Some e, w')
      | (None, w') \<Rightarrow> topics_loop uuid rid (pos + 1) rest w')"

definition create_roadmap :: "(nat \<Rightarrow> string) \<Rightarrow> nat \<Rightarrow> json \<Rightarrow> world \<Rightarrow> outcome" where
  "create_roadmap uuid now request_json w =
     (case json_get request_json ''user_id'' of
        Inl e \<Rightarrow> (Inl e, w)
      | Inr user_id \<Rightarrow>
     if \<not> truthy user_id then (abort 400 ''Missing User Id'', w) else
     (case json_get request_json ''Roadmap'' of
        Inl e \<Rightarrow> (Inl e, w)
      | Inr roadmap_response \<Rightarrow>
     if \<not> truthy roadmap_response then (abort 400 ''Missing Roadmap'', w) else
     (case show_user w user_id of
        None \<Rightarrow> (abort 404 (''User id: '' @ py_str user_id @ '' Not Found''), w)
      | Some usr \<Rightarrow>
     (case subscript roadmap_response ''Title'' of
        Inl e \<Rightarrow> (Inl e, w)
      | Inr ti \<Rightarrow>
     (case subscript roadmap_response ''Introduction'' of
        Inl e \<Rightarrow> (Inl e, w)
      | Inr intro \<Rightarrow>
     (case subscript roadmap_response ''AdditionalInfo'' of
        Inl e \<Rightarrow> (Inl e, w)
      | Inr info \<Rightarrow>
          let rm = \<lparr>r_id = uuid (next_id w), r_user_id = user_id, title = ti,
                    introduction = intro, AdditionalInfo = info, planning = True,
                    in_progress = False, completed = False, created_at = now\<rparr>;
              w1 = save_roadmap rm (w\<lparr>next_id := Suc (next_id w)\<rparr>)
          in
     (case subscript roadmap_response ''Topics'' of
        Inl e \<Rightarrow> (Inl e, w1)
      | Inr topics_json \<Rightarrow>
     (case py_iter topics_json of
        Inl e \<Rightarrow> (Inl e, w1)
      | Inr topic_entries \<Rightarrow>
     (case topics_loop uuid (r_id rm) 1 topic_entries w1 of
        (Some e, w2) \<Rightarrow> (Inl e, w2)
      | (None, w2) \<Rightarrow>
          (Inr (jsonify (JObj [(''roadmap_id'', JStr (r_id rm))]) 201),
           save_user usr w2))))))))))"

text \<open>
  The requests that \<open>create_roadmap\<close> accepts, told by their shape. \<open>has_key\<close>:
  the value is an object that holds the key. \<open>iterable_at\<close>: it holds the key, with a
  value a \<open>for\<close> loop can run over.
\<close>

definition iterable_at :: "json \<Rightarrow> string \<Rightarrow> bool" where
  "iterable_at x k =
     (case subscript x k of
        Inl e \<Rightarrow> False
      | Inr v \<Rightarrow> (case py_iter v of Inl e \<Rightarrow> False | Inr items \<Rightarrow> True))"

definition has_key :: "json \<Rightarrow> string \<Rightarrow> bool" where
  "has_key x k = (case subscript x k of Inl e \<Rightarrow> False | Inr v \<Rightarrow> True)"

text \<open>A topic entry holds the three fields of the topic and its two collections.\<close>

definition valid_topic_entry :: "json \<Rightarrow> bool" where
  "valid_topic_entry topic_data =
     (has_key topic_data ''TopicName'' \<and> has_key topic_data ''Descriptions''
      \<and> has_key topic_data ''Milestones'' \<and> iterable_at topic_data ''LearningObjectives''
      \<and> iterable_at topic_data ''Resources'')"

text \<open>
  A payload is not empty, holds the three fields of the roadmap, and under \<open>Topics\<close>
  a collection of topic entries.
\<close>

definition valid_payload :: "json \<Rightarrow> bool" where
  "valid_payload roadmap_response =
     (truthy roadmap_response
      \<and> has_key roadmap_response ''Title'' \<and> has_key roadmap_response ''Introduction''
      \<and> has_key roadmap_response ''AdditionalInfo''
      \<and> (case subscript roadmap_response ''Topics'' of
            Inl e \<Rightarrow> False
          | Inr topics_json \<Rightarrow>
              (case py_iter topics_json of
                 Inl e \<Rightarrow> False
               | Inr topic_entries \<Rightarrow> list_all valid_topic_entry topic_entries)))"

text \<open>A request names a stored user and carries a payload.\<close>

definition valid_request :: "world \<Rightarrow> json \<Rightarrow> bool" where
  "valid_request w request_json =
     (case json_get request_json ''user_id'' of
        Inl e \<Rightarrow> False
      | Inr user_id \<Rightarrow>
          truthy user_id \<and> show_user w user_id \<noteq> None
          \<and> (case json_get request_json ''Roadmap'' of
                Inl e \<Rightarrow> False
              | Inr roadmap_response \<Rightarrow> valid_payload roadmap_response))"

subsection \<open>POST /users\<close>

text \<open>
  \<open>request.form\<close> is a map from field names to strings; \<open>get\<close> answers \<open>None\<close>
  for an absent field. \<open>AUTH.register_user\<close> belongs to the module \<open>auth\<close>, which is
  not among the sources: the handler takes it as the parameter \<open>auth_register_user\<close>,
  which returns the new user or the exception it raised.
\<close>

definition opt_json :: "string option \<Rightarrow> json" where
  "opt_json x = (case x of None \<Rightarrow> JNull | Some s \<Rightarrow> JStr s)"

definition register_user ::
  "(string option \<Rightarrow> string option \<Rightarrow> string option \<Rightarrow> string option \<Rightarrow> world \<Rightarrow> (exn + user) \<times> world)
     \<Rightarrow> (string \<rightharpoonup> string) \<Rightarrow> world \<Rightarrow> outcome" where
  "register_user auth_register_user form w =
     (let first_name = form ''first_name'';
          last_name = form ''last_name'';
          email = form ''email'';
          password = form ''password''
      in case auth_register_user first_name last_name email password w of
           (Inl (ValueError m), w') \<Rightarrow> (abort 400 ''Email already registered'', w')
         | (Inl e, w') \<Rightarrow> (Inl e, w')
         | (Inr u, w') \<Rightarrow>
             (Inr (jsonify (JObj [(''email'', opt_json email),
                                  (''message'', JStr ''user created'')]) 200), w'))"

section \<open>The application around the handlers\<close>

text \<open>The three registered error handlers.\<close>

definition bad_request :: "string \<Rightarrow> response" where
  "bad_request d = jsonify (JObj [(''Error'', JStr d)]) 400"

definition forbidden :: "string \<Rightarrow> response" where
  "forbidden d = jsonify (JObj [(''Error'', JStr d)]) 403"

definition not_found :: "string \<Rightarrow> response" where
  "not_found d = jsonify (JObj [(''Error'', JStr d)]) 404"

text \<open>
  What the client receives: the response the handler returned; for an HTTPException the
  answer of the error handler registered for its code, or the framework's own page when
  there is none; for any other exception the framework's page for status 500.
\<close>

fun dispatch :: "exn + response \<Rightarrow> response" where
  "dispatch (Inr r) = r"
| "dispatch (Inl (HTTPException c d)) =
     (if c = 400 then bad_request d
      else if c = 403 then forbidden d
      else if c = 404 then not_found d
      else \<lparr>status = c, content = Html\<rparr>)"
| "dispatch (Inl e) = \<lparr>status = 500, content = Html\<rparr>"

section \<open>Example data\<close>

definition ada :: user where
  "ada = \<lparr>u_id = ''u1'', first_name = Some ''Ada'', last_name = Some ''Lovelace'',
          email = Some ''ada@example.org'', hashed_password = ''x''\<rparr>"

definition rm_plan :: roadmap where
  "rm_plan = \<lparr>r_id = ''r1'', r_user_id = JStr ''u1'', title = JStr ''Logic'',
              introduction = JStr ''Intro'', AdditionalInfo = JStr ''Tips'',
              planning = True, in_progress = False, completed = False, created_at = 1\<rparr>"

text \<open>A store with one user who owns one roadmap, in planning.\<close>

definition w_one :: world where
  "w_one = \<lparr>users = [ada], roadmaps = [rm_plan], topics = [], objectives = [],
            resources = [], next_id = 0, journal = []\<rparr>"

definition rm_mid :: roadmap where
  "rm_mid = \<lparr>r_id = ''r2'', r_user_id = JStr ''u1'', title = JStr ''Sets'',
             introduction = JStr ''Intro'', AdditionalInfo = JStr ''Tips'',
             planning = False, in_progress = True, completed = False, created_at = 2\<rparr>"

definition rm_new :: roadmap where
  "rm_new = \<lparr>r_id = ''r3'', r_user_id = JStr ''u1'', title = JStr ''Types'',
             introduction = JStr ''Intro'', AdditionalInfo = JStr ''Tips'',
             planning = False, in_progress = False, completed = True, created_at = 3\<rparr>"

text \<open>A store that iterates over its three roadmaps in an order unrelated to their age.\<close>

definition w_three :: world where
  "w_three = \<lparr>users = [ada], roadmaps = [rm_mid, rm_new, rm_plan], topics = [],
              objectives = [], resources = [], next_id = 0, journal = []\<rparr>"

text \<open>
  A stand-in for \<open>AUTH.register_user\<close> that accepts every call and stores the user with
  the fields as it received them.
\<close>

definition accepting_auth ::
  "string option \<Rightarrow> string option \<Rightarrow> string option \<Rightarrow> string option \<Rightarrow> world
     \<Rightarrow> (exn + user) \<times> world" where
  "accepting_auth fn ln em pw w =
     (let u = \<lparr>u_id = ''u2'', first_name = fn, last_name = ln, email = em,
               hashed_password = (case pw of None \<Rightarrow> [] | Some p \<Rightarrow> p)\<rparr>
      in (Inr u, save_user u w))"

text \<open>
  An id generator for the examples: the ids are \<open>i\<close>, \<open>ii\<close>, \<open>iii\<close>, ... in the order
  they are handed out.
\<close>

definition tally :: "nat \<Rightarrow> string" where
  "tally n = replicate (Suc n) CHR ''i''"

text \<open>A topic entry of a payload, and a request with the topics A, B and C.\<close>

definition topic_entry :: "string \<Rightarrow> json list \<Rightarrow> json list \<Rightarrow> json" where
  "topic_entry nm obs rss =
     JObj [(''TopicName'', JStr nm), (''Descriptions'', JStr ''about''),
           (''Milestones'', JStr ''a week''), (''LearningObjectives'', JArr obs),
           (''Resources'', JArr rss)]"

definition req_abc :: json where
  "req_abc =
     JObj [(''user_id'', JStr ''u1''),
           (''Roadmap'',
            JObj [(''Title'', JStr ''Proof''), (''Introduction'', JStr ''Intro''),
                  (''AdditionalInfo'', JStr ''Tips''),
                  (''Topics'', JArr [topic_entry ''A'' [JStr ''read''] [JStr ''http://a''],
                                     topic_entry ''B'' [] [],
                                     topic_entry ''C'' [JStr ''write''] []])])]"

text \<open>A store that already holds a topic of the roadmap \<open>r1\<close>.\<close>

definition old_topic :: topic where
  "old_topic = \<lparr>t_id = ''t1'', position = 1, t_roadmap_id = ''r1'', t_name = JStr ''Z'',
                 description = JStr ''about'', milestones = JStr ''a week''\<rparr>"

definition w_busy :: world where
  "w_busy = \<lparr>users = [ada], roadmaps = [rm_plan], topics = [old_topic], objectives = [],
             resources = [], next_id = 0, journal = []\<rparr>"


text \<open>The records that \<open>create_roadmap\<close> makes of \<open>req_abc\<close>, and the world it leaves.\<close>

definition rm_abc :: roadmap where
  "rm_abc = \<lparr>r_id = ''i'', r_user_id = JStr ''u1'', title = JStr ''Proof'',
             introduction = JStr ''Intro'', AdditionalInfo = JStr ''Tips'',
             planning = True, in_progress = False, completed = False, created_at = 7\<rparr>"

definition topic_a :: topic where
  "topic_a = \<lparr>t_id = ''ii'', position = 1, t_roadmap_id = ''i'', t_name = JStr ''A'',
              description = JStr ''about'', milestones = JStr ''a week''\<rparr>"

definition topic_b :: topic where
  "topic_b = \<lparr>t_id = ''iiiii'', position = 2, t_roadmap_id = ''i'', t_name = JStr ''B'',
              description = JStr ''about'', milestones = JStr ''a week''\<rparr>"

definition topic_c :: topic where
  "topic_c = \<lparr>t_id = ''iiiiii'', position = 3, t_roadmap_id = ''i'', t_name = JStr ''C'',
              description = JStr ''about'', milestones = JStr ''a week''\<rparr>"

definition obj_read :: objective where
  "obj_read = \<lparr>o_id = ''iii'', o_name = JStr ''read'', o_topic_id = ''ii''\<rparr>"

definition obj_write :: objective where
  "obj_write = \<lparr>o_id = ''iiiiiii'', o_name = JStr ''write'', o_topic_id = ''iiiiii''\<rparr>"

definition res_a :: resource where
  "res_a = \<lparr>s_id = ''iiii'', link = JStr ''http://a'', s_topic_id = ''ii''\<rparr>"

definition w_abc :: world where
  "w_abc = \<lparr>users = [ada], roadmaps = [rm_plan, rm_abc],
            topics = [old_topic, topic_a, topic_b, topic_c],
            objectives = [obj_read, obj_write], resources = [res_a], next_id = 7,
            journal = [SavedRoadmap rm_abc, SavedObjective obj_read False,
                       SavedResource res_a False, SavedTopic topic_a True,
                       SavedTopic topic_b True, SavedObjective obj_write False,
                       SavedTopic topic_c True, SavedUser ada]\<rparr>"

text \<open>The same store, iterating over its topics in another order.\<close>

definition w_abc_shuffled :: world where
  "w_abc_shuffled = w_abc\<lparr>topics := [topic_c, old_topic, topic_a, topic_b]\<rparr>"

text \<open>Requests whose payload lacks the topics, the title, or is absent.\<close>

definition req_no_topics :: json where
  "req_no_topics =
     JObj [(''user_id'', JStr ''u1''),
           (''Roadmap'',
            JObj [(''Title'', JStr ''Proof''), (''Introduction'', JStr ''Intro''),
                  (''AdditionalInfo'', JStr ''Tips'')])]"

definition req_no_title :: json where
  "req_no_title =
     JObj [(''user_id'', JStr ''u1''),
           (''Roadmap'',
            JObj [(''Introduction'', JStr ''Intro''), (''AdditionalInfo'', JStr ''Tips''),
                  (''Topics'', JArr [topic_entry ''A'' [] []])])]"

definition req_no_roadmap :: json where
  "req_no_roadmap = JObj [(''user_id'', JStr ''u1'')]"

section \<open>Reading the journal\<close>

text \<open>Was the parent of the saved record in storage when it was saved?\<close>

fun parent_present :: "saved \<Rightarrow> bool" where
  "parent_present (SavedTopic t b) = b"
| "parent_present (SavedObjective ob b) = b"
| "parent_present (SavedResource rs b) = b"
| "parent_present e = True"

text \<open>The same question, asked of topics only.\<close>

fun topic_parent_present :: "saved \<Rightarrow> bool" where
  "topic_parent_present (SavedTopic t b) = b"
| "topic_parent_present e = True"

text \<open>Is the topic of a saved objective or resource in the storage of \<open>w\<close>?\<close>

fun child_topic_stored :: "world \<Rightarrow> saved \<Rightarrow> bool" where
  "child_topic_stored w (SavedObjective ob b) = (show_topic w (o_topic_id ob) \<noteq> None)"
| "child_topic_stored w (SavedResource rs b) = (show_topic w (s_topic_id rs) \<noteq> None)"
| "child_topic_stored w e = True"

text \<open>The objectives and resources of the topic \<open>tid\<close>.\<close>

fun is_child_of :: "string \<Rightarrow> saved \<Rightarrow> bool" where
  "is_child_of tid (SavedObjective ob b) = (o_topic_id ob = tid)"
| "is_child_of tid (SavedResource rs b) = (s_topic_id rs = tid)"
| "is_child_of tid e = False"

text \<open>The roadmaps among the saved records.\<close>

fun saved_roadmaps :: "saved list \<Rightarrow> roadmap list" where
  "saved_roadmaps [] = []"
| "saved_roadmaps (SavedRoadmap r # es) = r # saved_roadmaps es"
| "saved_roadmaps (e # es) = saved_roadmaps es"

section \<open>Updating the status of a roadmap\<close>

lemma digits_404: "digits 404 = ''404''"
  by code_simp

lemma digits_403: "digits 403 = ''403''"
  by code_simp

lemma show_w_one_r9: "show_roadmap w_one ''r9'' = None"
  by (simp add: show_roadmap_def w_one_def rm_plan_def)

lemma show_w_one_r1: "show_roadmap w_one ''r1'' = Some rm_plan"
  by (simp add: show_roadmap_def w_one_def rm_plan_def)

text \<open>
  When the roadmap is absent the handler aborts with 404 inside its \<open>try\<close>; the
  \<open>except\<close> clause takes the exception and answers 500. The world stays as it was.
\<close>

lemma update_roadmap_status_absent:
  "show_roadmap w rid = None \<Longrightarrow>
   update_roadmap_status rid request_json w =
     (Inr (jsonify (JObj [(''error'',
             JStr ''An error occurred: 404 Not Found: Roadmap Not Found'')]) 500), w)"
  by (simp add: update_roadmap_status_def update_roadmap_status_try_def abort_def
      digits_404 status_name_def)

text \<open>A missing, null or empty \<open>new_status\<close> aborts with 403, which ends as 500 the same way.\<close>

lemma update_roadmap_status_falsy:
  "show_roadmap w rid = Some r \<Longrightarrow> json_get request_json ''new_status'' = Inr s \<Longrightarrow>
   \<not> truthy s \<Longrightarrow>
   update_roadmap_status rid request_json w =
     (Inr (jsonify (JObj [(''error'',
             JStr ''An error occurred: 403 Forbidden: Invalid Request body'')]) 500), w)"
  by (simp add: update_roadmap_status_def update_roadmap_status_try_def abort_def
      digits_403 status_name_def)

text \<open>
  Any other value that Python counts as true passes the \<open>if\<close>/\<open>elif\<close> chain without a
  branch taken: the roadmap is saved as it was read and the answer is 200.
\<close>

lemma update_roadmap_status_other:
  "show_roadmap w rid = Some r \<Longrightarrow> json_get request_json ''new_status'' = Inr s \<Longrightarrow>
   truthy s \<Longrightarrow>
   s \<noteq> JStr ''planning'' \<Longrightarrow> s \<noteq> JStr ''in_progress'' \<Longrightarrow> s \<noteq> JStr ''completed'' \<Longrightarrow>
   update_roadmap_status rid request_json w =
     (Inr (jsonify (JObj [(''message'',
             JStr (''Roadmap status ('' @ py_str s @ '') updated successfully''))]) 200),
      save_roadmap r w)"
  by (simp add: update_roadmap_status_def update_roadmap_status_try_def)

text \<open>
  Claim C1, at the roadmap id \<open>r9\<close>, which the store \<open>w_one\<close> does not hold: the
  client receives status 500 with the key \<open>error\<close>, not the 404 of the claim; the
  store is unchanged, as the claim says.
\<close>

theorem update_status_absent_answers_500:
  "dispatch (fst (update_roadmap_status ''r9'' (JObj [(''new_status'', JStr ''completed'')]) w_one)) =
     \<lparr>status = 500,
      content = Json (JObj [(''error'',
                  JStr ''An error occurred: 404 Not Found: Roadmap Not Found'')])\<rparr>
   \<and> snd (update_roadmap_status ''r9'' (JObj [(''new_status'', JStr ''completed'')]) w_one) = w_one"
  using update_roadmap_status_absent [OF show_w_one_r9]
  by (simp add: jsonify_def)

text \<open>
  Claim C2, on the stored roadmap \<open>r1\<close>: the status \<open>archived\<close> is answered with 200
  and a success message, and the roadmap is saved; the empty status is answered with 500,
  not 403.
\<close>

theorem update_status_unknown_value_answers_200:
  "update_roadmap_status ''r1'' (JObj [(''new_status'', JStr ''archived'')]) w_one =
     (Inr \<lparr>status = 200,
           content = Json (JObj [(''message'',
                       JStr ''Roadmap status (archived) updated successfully'')])\<rparr>,
      w_one\<lparr>journal := [SavedRoadmap rm_plan]\<rparr>)
   \<and> update_roadmap_status ''r1'' (JObj [(''new_status'', JStr [])]) w_one =
     (Inr \<lparr>status = 500,
           content = Json (JObj [(''error'',
                       JStr ''An error occurred: 403 Forbidden: Invalid Request body'')])\<rparr>,
      w_one)"
  using update_roadmap_status_other [OF show_w_one_r1,
          of "JObj [(''new_status'', JStr ''archived'')]" "JStr ''archived''"]
    update_roadmap_status_falsy [OF show_w_one_r1,
          of "JObj [(''new_status'', JStr [])]" "JStr []"]
  by (simp add: jsonify_def save_roadmap_def w_one_def rm_plan_def)

text \<open>Saving writes a record where \<open>show\<close> finds it.\<close>

lemma find_upsert: "find (\<lambda>r. key r = key x) (upsert key x xs) = Some x"
  by (induction xs) auto

lemma show_roadmap_id: "show_roadmap w rid = Some r \<Longrightarrow> r_id r = rid"
  by (auto simp: show_roadmap_def find_Some_iff)

lemma show_roadmap_save: "show_roadmap (save_roadmap r w) (r_id r) = Some r"
  using find_upsert [of r_id r "roadmaps w"] by (simp add: show_roadmap_def save_roadmap_def)

text \<open>
  For one of the three status words the call answers 200 and the stored roadmap then has
  exactly the flag of that word.
\<close>

lemma update_roadmap_status_valid:
  assumes "show_roadmap w rid = Some r"
    and "json_get request_json ''new_status'' = Inr (JStr s)"
    and "s = ''planning'' \<or> s = ''in_progress'' \<or> s = ''completed''"
  shows "\<exists>r' w'. update_roadmap_status rid request_json w =
            (Inr (jsonify (JObj [(''message'',
               JStr (''Roadmap status ('' @ s @ '') updated successfully''))]) 200), w')
          \<and> show_roadmap w' rid = Some r'
          \<and> planning r' = (s = ''planning'')
          \<and> in_progress r' = (s = ''in_progress'')
          \<and> completed r' = (s = ''completed'')"
proof -
  have rid: "r_id r = rid" using assms(1) by (rule show_roadmap_id)
  have ne: "s \<noteq> []" using assms(3) by auto
  define r' where "r' =
     (if s = ''planning''
      then r\<lparr>planning := True, in_progress := False, completed := False\<rparr>
      else if s = ''in_progress''
      then r\<lparr>in_progress := True, planning := False, completed := False\<rparr>
      else r\<lparr>completed := True, planning := False, in_progress := False\<rparr>)"
  have id': "r_id r' = rid" using rid by (simp add: r'_def)
  have run: "update_roadmap_status rid request_json w =
      (Inr (jsonify (JObj [(''message'',
               JStr (''Roadmap status ('' @ s @ '') updated successfully''))]) 200),
       save_roadmap r' w)"
    using assms(1,2) ne assms(3)
    by (elim disjE; simp add: update_roadmap_status_def update_roadmap_status_try_def r'_def)
  have stored: "show_roadmap (save_roadmap r' w) rid = Some r'"
    using show_roadmap_save [of r' w] id' by simp
  have flags: "planning r' = (s = ''planning'')" "in_progress r' = (s = ''in_progress'')"
    "completed r' = (s = ''completed'')"
    using assms(3) by (elim disjE; simp add: r'_def)+
  show ?thesis
    apply (rule exI [of _ r'])
    apply (rule exI [of _ "save_roadmap r' w"])
    apply (simp only: run stored flags)
    done
qed

text \<open>
  Claim C3, on the stored roadmap \<open>r1\<close>, which is in planning: the call with the status
  \<open>done\<close> is answered as a success, and afterwards the flag that is true is still
  \<open>planning\<close>, which is not the flag of the requested status.
\<close>

theorem update_status_unknown_value_keeps_flags:
  "fst (update_roadmap_status ''r1'' (JObj [(''new_status'', JStr ''done'')]) w_one) =
     Inr \<lparr>status = 200,
          content = Json (JObj [(''message'',
                      JStr ''Roadmap status (done) updated successfully'')])\<rparr>
   \<and> show_roadmap (snd (update_roadmap_status ''r1'' (JObj [(''new_status'', JStr ''done'')]) w_one))
         ''r1'' = Some rm_plan
   \<and> planning rm_plan \<and> \<not> in_progress rm_plan \<and> \<not> completed rm_plan"
  using update_roadmap_status_other [OF show_w_one_r1,
          of "JObj [(''new_status'', JStr ''done'')]" "JStr ''done''"]
  by (simp add: jsonify_def save_roadmap_def show_roadmap_def w_one_def rm_plan_def)

section \<open>The shape of failure responses\<close>

text \<open>
  Claim C8, at the roadmap id \<open>r9\<close>, which \<open>w_one\<close> does not hold: fetching it is
  answered with 404 and the key \<open>error\<close>, and so is the 500 of the status update; the
  key of the registered error handlers is \<open>Error\<close>.
\<close>

theorem missing_roadmap_failure_has_lowercase_key:
  "dispatch (fst (view_roadmap ''r9'' w_one)) =
     \<lparr>status = 404, content = Json (JObj [(''error'', JStr ''Roadmap not found'')])\<rparr>
   \<and> content (dispatch (fst (view_roadmap ''r9'' w_one)))
       \<noteq> Json (JObj [(''Error'', JStr ''Roadmap not found'')])
   \<and> dispatch (fst (update_roadmap_status ''r9'' JNull w_one)) =
     \<lparr>status = 500,
      content = Json (JObj [(''error'',
                  JStr ''An error occurred: 404 Not Found: Roadmap Not Found'')])\<rparr>
   \<and> dispatch (abort 404 ''Roadmap Not Found'') =
     \<lparr>status = 404, content = Json (JObj [(''Error'', JStr ''Roadmap Not Found'')])\<rparr>"
  using update_roadmap_status_absent [OF show_w_one_r9, of JNull]
  by (simp add: view_roadmap_def show_w_one_r9 jsonify_def abort_def not_found_def)

section \<open>Registering a user\<close>

text \<open>
  Claim C10: the handler checks no field for presence. Whatever the form holds, it calls
  \<open>AUTH.register_user\<close> with what \<open>form.get\<close> answered, \<open>None\<close> for an absent
  field, and when that call returns a user it answers 200 with the email as it got it.
\<close>

theorem register_user_no_presence_check:
  "auth_register_user (form ''first_name'') (form ''last_name'') (form ''email'')
       (form ''password'') w = (Inr u, w') \<Longrightarrow>
   register_user auth_register_user form w =
     (Inr \<lparr>status = 200,
           content = Json (JObj [(''email'', opt_json (form ''email'')),
                                 (''message'', JStr ''user created'')])\<rparr>, w')"
  by (simp add: register_user_def jsonify_def)

theorem register_user_no_presence_check_witness:
  "register_user accepting_auth Map.empty w_one =
     (Inr \<lparr>status = 200,
           content = Json (JObj [(''email'', JNull), (''message'', JStr ''user created'')])\<rparr>,
      save_user \<lparr>u_id = ''u2'', first_name = None, last_name = None, email = None,
                 hashed_password = []\<rparr> w_one)"
  using register_user_no_presence_check [of accepting_auth Map.empty w_one
      "\<lparr>u_id = ''u2'', first_name = None, last_name = None, email = None,
        hashed_password = []\<rparr>"
      "save_user \<lparr>u_id = ''u2'', first_name = None, last_name = None, email = None,
                 hashed_password = []\<rparr> w_one"]
  by (simp add: accepting_auth_def opt_json_def Let_def)

section \<open>The dashboard\<close>

lemma filter_key_singleton:
  "distinct (map f zs) \<Longrightarrow> k \<in> set zs \<Longrightarrow> filter (\<lambda>x. f k = f x) zs = [k]"
proof (induction zs)
  case Nil
  then show ?case by simp
next
  case (Cons z zs)
  show ?case
  proof (cases "k = z")
    case True
    have "filter (\<lambda>x. f z = f x) zs = []"
      using Cons.prems(1) by (auto simp: filter_empty_conv)
    with True show ?thesis by simp
  next
    case False
    have kz: "k \<in> set zs" using False Cons.prems(2) by simp
    have "f z \<notin> f ` set zs" using Cons.prems(1) by simp
    then have "f k \<noteq> f z" using kz by (metis imageI)
    then show ?thesis using Cons.IH Cons.prems(1) kz by simp
  qed
qed

text \<open>With pairwise different keys a list has one sorted arrangement only.\<close>

lemma sort_key_unique:
  assumes "mset xs = mset ys" and "sorted (map f ys)" and "distinct (map f ys)"
  shows "sort_key f xs = ys"
proof (rule properties_for_sort_key)
  show "mset ys = mset xs" using assms(1) by simp
  show "sorted (map f ys)" by (rule assms(2))
  fix k assume k: "k \<in> set ys"
  have "mset (map f xs) = mset (map f ys)" using assms(1) by (metis mset_map)
  then have dx: "distinct (map f xs)" using assms(3) by (metis mset_eq_imp_distinct_iff)
  have kx: "k \<in> set xs" using k assms(1) by (metis mset_eq_setD)
  show "filter (\<lambda>x. f k = f x) ys = filter (\<lambda>x. f k = f x) xs"
    using filter_key_singleton [OF assms(3) k] filter_key_singleton [OF dx kx] by simp
qed

lemma mset_sorted_reverse: "mset (sorted_reverse f xs) = mset xs"
  by (simp add: sorted_reverse_def)

lemma sorted_reverse_descending: "sorted_wrt (\<lambda>x y. f y \<le> f x) (sorted_reverse f xs)"
proof -
  have "sorted (map f (sort_key f (rev xs)))" by (rule sorted_sort_key)
  then have "sorted_wrt (\<lambda>x y. f x \<le> f y) (sort_key f (rev xs))"
    by (simp add: sorted_wrt_map)
  then show ?thesis by (simp add: sorted_reverse_def sorted_wrt_rev)
qed

lemma sorted_reverse_three:
  assumes "mset xs = {#a, b, c#}" and "f a < f b" and "f b < f c"
  shows "sorted_reverse f xs = [c, b, a]"
proof -
  have "sort_key f (rev xs) = [a, b, c]"
  proof (rule sort_key_unique)
    show "mset (rev xs) = mset [a, b, c]" using assms(1) by (simp add: add.commute)
    show "sorted (map f [a, b, c])" using assms(2,3) by auto
    show "distinct (map f [a, b, c])" using assms(2,3) by auto
  qed
  then show ?thesis by (simp add: sorted_reverse_def)
qed

text \<open>
  Claim C6: the dashboard answers with all stored roadmaps, each as often as it is stored,
  in descending order of \<open>created_at\<close>; three roadmaps created at increasing times come
  back newest first, in whatever order the store holds them.
\<close>

theorem dashboard_newest_first:
  "\<exists>rs. dashboard w = (Inr \<lparr>status = 200, content = RoadmapList rs\<rparr>, w)
        \<and> mset rs = mset (roadmaps w)
        \<and> sorted_wrt (\<lambda>x y. created_at y \<le> created_at x) rs
        \<and> (\<forall>a b c. mset (roadmaps w) = {#a, b, c#} \<and> created_at a < created_at b
               \<and> created_at b < created_at c \<longrightarrow> rs = [c, b, a])"
  apply (rule exI [of _ "sorted_reverse created_at (roadmaps w)"])
  apply (simp add: dashboard_def mset_sorted_reverse sorted_reverse_descending)
  apply (intro allI impI)
  apply (rule sorted_reverse_three)
    apply simp_all
  done

theorem dashboard_newest_first_witness:
  "mset (roadmaps w_three) = {#rm_plan, rm_mid, rm_new#}
   \<and> created_at rm_plan < created_at rm_mid \<and> created_at rm_mid < created_at rm_new
   \<and> dashboard w_three =
       (Inr \<lparr>status = 200, content = RoadmapList [rm_new, rm_mid, rm_plan]\<rparr>, w_three)"
proof -
  have h: "mset (roadmaps w_three) = {#rm_plan, rm_mid, rm_new#}
     \<and> created_at rm_plan < created_at rm_mid \<and> created_at rm_mid < created_at rm_new"
    by (simp add: w_three_def rm_plan_def rm_mid_def rm_new_def)
  from dashboard_newest_first [of w_three] obtain rs where
    d: "dashboard w_three = (Inr \<lparr>status = 200, content = RoadmapList rs\<rparr>, w_three)"
    and three: "\<forall>a b c. mset (roadmaps w_three) = {#a, b, c#} \<and> created_at a < created_at b
               \<and> created_at b < created_at c \<longrightarrow> rs = [c, b, a]"
    by blast
  from three h have "rs = [rm_new, rm_mid, rm_plan]" by blast
  with d h show ?thesis by simp
qed

section \<open>Creating a roadmap\<close>

subsection \<open>The two inner loops\<close>

lemma save_objectives_fields:
  "users (save_objectives uuid tid xs w) = users w"
  "roadmaps (save_objectives uuid tid xs w) = roadmaps w"
  "topics (save_objectives uuid tid xs w) = topics w"
  "resources (save_objectives uuid tid xs w) = resources w"
  "next_id (save_objectives uuid tid xs w) = next_id w + length xs"
  by (induction xs arbitrary: w; simp add: save_objective_def)+

lemma save_resources_fields:
  "users (save_resources uuid tid xs w) = users w"
  "roadmaps (save_resources uuid tid xs w) = roadmaps w"
  "topics (save_resources uuid tid xs w) = topics w"
  "objectives (save_resources uuid tid xs w) = objectives w"
  "next_id (save_resources uuid tid xs w) = next_id w + length xs"
  by (induction xs arbitrary: w; simp add: save_resource_def)+

lemma save_objectives_journal:
  "\<exists>js. journal (save_objectives uuid tid xs w) = journal w @ js \<and> list_all (is_child_of tid) js"
proof (induction xs arbitrary: w)
  case Nil
  then show ?case by simp
next
  case (Cons x xs)
  let ?w1 = "save_objective \<lparr>o_id = uuid (next_id w), o_name = x, o_topic_id = tid\<rparr>
          (w\<lparr>next_id := Suc (next_id w)\<rparr>)"
  from Cons.IH [of ?w1] obtain js where
    js: "journal (save_objectives uuid tid xs ?w1) = journal ?w1 @ js" "list_all (is_child_of tid) js"
    by blast
  have "journal ?w1 = journal w @ [SavedObjective \<lparr>o_id = uuid (next_id w), o_name = x, o_topic_id = tid\<rparr>
      (show_topic w tid \<noteq> None)]"
    by (simp add: save_objective_def show_topic_def)
  with js show ?case by simp
qed

lemma save_resources_journal:
  "\<exists>js. journal (save_resources uuid tid xs w) = journal w @ js \<and> list_all (is_child_of tid) js"
proof (induction xs arbitrary: w)
  case Nil
  then show ?case by simp
next
  case (Cons x xs)
  let ?w1 = "save_resource \<lparr>s_id = uuid (next_id w), link = x, s_topic_id = tid\<rparr>
          (w\<lparr>next_id := Suc (next_id w)\<rparr>)"
  from Cons.IH [of ?w1] obtain js where
    js: "journal (save_resources uuid tid xs ?w1) = journal ?w1 @ js" "list_all (is_child_of tid) js"
    by blast
  have "journal ?w1 = journal w @ [SavedResource \<lparr>s_id = uuid (next_id w), link = x, s_topic_id = tid\<rparr>
      (show_topic w tid \<noteq> None)]"
    by (simp add: save_resource_def show_topic_def)
  with js show ?case by simp
qed



subsection \<open>One pass of the loop over the topic entries\<close>

lemma topic_step_None:
  assumes "topic_step uuid rid pos td w = (None, w')"
  shows "\<exists>nm ds ms obs rss.
           subscript td ''TopicName'' = Inr nm
         \<and> w' = save_topic \<lparr>t_id = uuid (next_id w), position = pos, t_roadmap_id = rid,
                            t_name = nm, description = ds, milestones = ms\<rparr>
                  (save_resources uuid (uuid (next_id w)) rss
                    (save_objectives uuid (uuid (next_id w)) obs (w\<lparr>next_id := Suc (next_id w)\<rparr>)))"
  using assms unfolding topic_step_def
  by (auto split: sum.splits simp: Let_def)

lemma topic_step_Some:
  assumes "topic_step uuid rid pos td w = (Some e, w')"
  shows "w' = w
       \<or> (\<exists>obs. w' = save_objectives uuid (uuid (next_id w)) obs (w\<lparr>next_id := Suc (next_id w)\<rparr>))"
  using assms unfolding topic_step_def
  by (auto split: sum.splits simp: Let_def intro: exI [of _ "[]"])


lemma is_child_of_facts:
  "list_all (is_child_of tid) js \<Longrightarrow> list_all topic_parent_present js"
  "list_all (is_child_of tid) js \<Longrightarrow> saved_roadmaps js = []"
  "list_all (is_child_of tid) js \<Longrightarrow> show_topic w tid \<noteq> None \<Longrightarrow> list_all (child_topic_stored w) js"
proof (induction js)
  case Nil
  { case 1 show ?case by simp }
  { case 2 show ?case by simp }
  { case 3 show ?case by simp }
next
  case (Cons j js)
  { case 1 with Cons show ?case by (cases j) auto }
  { case 2 with Cons show ?case by (cases j) auto }
  { case 3 with Cons show ?case by (cases j) auto }
qed

lemma upsert_keys: "key ` set (upsert key x xs) = insert (key x) (key ` set xs)"
  by (induction xs) auto

lemma show_topic_iff:
  "(show_topic w i \<noteq> None) = (i \<in> t_id ` set (topics w))"
  "(\<exists>y. show_topic w i = Some y) = (i \<in> t_id ` set (topics w))"
  using find_None_iff [of "\<lambda>t. t_id t = i" "topics w"]
  by (auto simp: show_topic_def)

lemma saved_roadmaps_append: "saved_roadmaps (xs @ ys) = saved_roadmaps xs @ saved_roadmaps ys"
  by (induction xs rule: saved_roadmaps.induct) simp_all

lemma child_topic_stored_mono:
  "t_id ` set (topics w) \<subseteq> t_id ` set (topics w') \<Longrightarrow>
   list_all (child_topic_stored w) js \<Longrightarrow> list_all (child_topic_stored w') js"
proof (induction js)
  case Nil
  then show ?case by simp
next
  case (Cons j js)
  then show ?case by (cases j) (auto simp: show_topic_iff)
qed

lemma topic_step_stable:
  "users (snd (topic_step uuid rid pos td w)) = users w"
  "roadmaps (snd (topic_step uuid rid pos td w)) = roadmaps w"
  unfolding topic_step_def
  by (auto split: sum.splits simp: Let_def save_topic_def save_objectives_fields save_resources_fields)

lemma topic_step_topic_ids:
  "t_id ` set (topics w) \<subseteq> t_id ` set (topics (snd (topic_step uuid rid pos td w)))"
  unfolding topic_step_def
  by (auto split: sum.splits simp: Let_def save_topic_def save_objectives_fields
      save_resources_fields upsert_keys)

lemma topic_step_journal:
  assumes "show_roadmap w rid \<noteq> None" and "topic_step uuid rid pos td w = (res, w')"
  shows "\<exists>js. journal w' = journal w @ js \<and> list_all topic_parent_present js
            \<and> saved_roadmaps js = []
            \<and> (res = None \<longrightarrow> list_all (child_topic_stored w') js)"
proof (cases res)
  case None
  with assms(2) obtain nm ds ms obs rss where
    w': "w' = save_topic \<lparr>t_id = uuid (next_id w), position = pos, t_roadmap_id = rid,
                            t_name = nm, description = ds, milestones = ms\<rparr>
                  (save_resources uuid (uuid (next_id w)) rss
                    (save_objectives uuid (uuid (next_id w)) obs (w\<lparr>next_id := Suc (next_id w)\<rparr>)))"
    using topic_step_None by blast
  let ?tid = "uuid (next_id w)"
  let ?w1 = "w\<lparr>next_id := Suc (next_id w)\<rparr>"
  let ?w2 = "save_objectives uuid ?tid obs ?w1"
  let ?w3 = "save_resources uuid ?tid rss ?w2"
  let ?tp = "\<lparr>t_id = ?tid, position = pos, t_roadmap_id = rid,
                            t_name = nm, description = ds, milestones = ms\<rparr>"
  obtain js1 where js1: "journal ?w2 = journal ?w1 @ js1" "list_all (is_child_of ?tid) js1"
    using save_objectives_journal by blast
  obtain js2 where js2: "journal ?w3 = journal ?w2 @ js2" "list_all (is_child_of ?tid) js2"
    using save_resources_journal by blast
  have rm3: "show_roadmap ?w3 rid \<noteq> None"
    using assms(1) by (simp add: show_roadmap_def save_objectives_fields save_resources_fields)
  have j: "journal w' = journal w @ (js1 @ js2 @ [SavedTopic ?tp True])"
    using js1(1) js2(1) rm3 by (simp add: w' save_topic_def)
  have st: "show_topic w' ?tid \<noteq> None"
    by (simp add: show_topic_iff w' save_topic_def upsert_keys)
  have c: "list_all (is_child_of ?tid) (js1 @ js2)" using js1(2) js2(2) by simp
  have "list_all topic_parent_present (js1 @ js2 @ [SavedTopic ?tp True])"
    using is_child_of_facts(1) [OF c] by simp
  moreover have "saved_roadmaps (js1 @ js2 @ [SavedTopic ?tp True]) = []"
    using is_child_of_facts(2) [OF js1(2)] is_child_of_facts(2) [OF js2(2)]
    by (simp add: saved_roadmaps_append)
  moreover have "list_all (child_topic_stored w') (js1 @ js2 @ [SavedTopic ?tp True])"
    using is_child_of_facts(3) [OF c st] by simp
  ultimately show ?thesis using j by blast
next
  case (Some e)
  with assms(2) consider "w' = w"
    | obs where "w' = save_objectives uuid (uuid (next_id w)) obs (w\<lparr>next_id := Suc (next_id w)\<rparr>)"
    using topic_step_Some by blast
  then show ?thesis
  proof cases
    case 1
    then show ?thesis using Some by simp
  next
    case 2
    obtain js1 where js1: "journal w' = journal (w\<lparr>next_id := Suc (next_id w)\<rparr>) @ js1"
       "list_all (is_child_of (uuid (next_id w))) js1"
      unfolding 2 using save_objectives_journal by blast
    then show ?thesis using Some is_child_of_facts(1,2) [OF js1(2)] by simp
  qed
qed



subsection \<open>The loop over the topic entries\<close>

lemma topics_loop_stable:
  "users (snd (topics_loop uuid rid pos tds w)) = users w
   \<and> roadmaps (snd (topics_loop uuid rid pos tds w)) = roadmaps w"
proof (induction tds arbitrary: w pos)
  case Nil
  show ?case by simp
next
  case (Cons td tds)
  obtain res w1 where s: "topic_step uuid rid pos td w = (res, w1)"
    by (cases "topic_step uuid rid pos td w")
  have u: "users w1 = users w" "roadmaps w1 = roadmaps w"
    using topic_step_stable [of uuid rid pos td w] s by simp_all
  show ?case using s u Cons.IH [of "pos + 1" w1] by (cases res) simp_all
qed

lemma topics_loop_topic_ids:
  "t_id ` set (topics w) \<subseteq> t_id ` set (topics (snd (topics_loop uuid rid pos tds w)))"
proof (induction tds arbitrary: w pos)
  case Nil
  then show ?case by simp
next
  case (Cons td tds)
  obtain res w1 where s: "topic_step uuid rid pos td w = (res, w1)" by (cases "topic_step uuid rid pos td w")
  have m: "t_id ` set (topics w) \<subseteq> t_id ` set (topics w1)"
    using topic_step_topic_ids [of w uuid rid pos td] s by simp
  show ?case
  proof (cases res)
    case None
    then show ?thesis using s m Cons.IH [of w1 "pos + 1"] by auto
  next
    case (Some e)
    then show ?thesis using s m by simp
  qed
qed

lemma topics_loop_journal:
  assumes "show_roadmap w rid \<noteq> None" and "topics_loop uuid rid pos tds w = (res, w')"
  shows "\<exists>js. journal w' = journal w @ js \<and> list_all topic_parent_present js
            \<and> saved_roadmaps js = []
            \<and> (res = None \<longrightarrow> list_all (child_topic_stored w') js)"
  using assms
proof (induction tds arbitrary: w pos)
  case Nil
  then show ?case by simp
next
  case (Cons td tds)
  obtain r1 w1 where s: "topic_step uuid rid pos td w = (r1, w1)" by (cases "topic_step uuid rid pos td w")
  from topic_step_journal [OF Cons.prems(1) s] obtain js1 where
    js1: "journal w1 = journal w @ js1" "list_all topic_parent_present js1" "saved_roadmaps js1 = []"
      "r1 = None \<longrightarrow> list_all (child_topic_stored w1) js1"
    by blast
  show ?case
  proof (cases r1)
    case (Some e)
    then have "w' = w1" "res = Some e" using Cons.prems(2) s by simp_all
    then show ?thesis using js1 by simp
  next
    case None
    then have rest: "topics_loop uuid rid (pos + 1) tds w1 = (res, w')"
      using Cons.prems(2) s by simp
    have rm1: "show_roadmap w1 rid \<noteq> None"
      using Cons.prems(1) topic_step_stable(2) [of uuid rid pos td w] s
      by (simp add: show_roadmap_def)
    from Cons.IH [OF rm1 rest] obtain js2 where
      js2: "journal w' = journal w1 @ js2" "list_all topic_parent_present js2" "saved_roadmaps js2 = []"
        "res = None \<longrightarrow> list_all (child_topic_stored w') js2"
      by blast
    have mono: "t_id ` set (topics w1) \<subseteq> t_id ` set (topics w')"
      using topics_loop_topic_ids [of w1 uuid rid "pos + 1" tds] rest by simp
    have c1: "list_all (child_topic_stored w') js1"
      using child_topic_stored_mono [OF mono] js1(4) None by simp
    have "journal w' = journal w @ (js1 @ js2)" using js1(1) js2(1) by simp
    moreover have "list_all topic_parent_present (js1 @ js2)" using js1(2) js2(2) by simp
    moreover have "saved_roadmaps (js1 @ js2) = []"
      using js1(3) js2(3) by (simp add: saved_roadmaps_append)
    moreover have "res = None \<longrightarrow> list_all (child_topic_stored w') (js1 @ js2)"
      using c1 js2(4) by simp
    ultimately show ?thesis by blast
  qed
qed



subsection \<open>The handler\<close>

text \<open>What a run that ends with a response has gone through.\<close>

lemma create_roadmap_Inr:
  assumes "create_roadmap uuid now req w = (Inr resp, w')"
  shows "\<exists>user_id rr usr ti intro info tj entries w2.
           json_get req ''user_id'' = Inr user_id
         \<and> json_get req ''Roadmap'' = Inr rr
         \<and> show_user w user_id = Some usr
         \<and> subscript rr ''Topics'' = Inr tj
         \<and> py_iter tj = Inr entries
         \<and> topics_loop uuid (uuid (next_id w)) 1 entries
              (save_roadmap \<lparr>r_id = uuid (next_id w), r_user_id = user_id, title = ti,
                    introduction = intro, AdditionalInfo = info, planning = True,
                    in_progress = False, completed = False, created_at = now\<rparr>
                 (w\<lparr>next_id := Suc (next_id w)\<rparr>)) = (None, w2)
         \<and> w' = save_user usr w2
         \<and> resp = jsonify (JObj [(''roadmap_id'', JStr (uuid (next_id w)))]) 201"
  using assms unfolding create_roadmap_def
  by (auto split: sum.splits option.splits if_splits prod.splits simp: Let_def abort_def)


lemma upsert_fresh: "key x \<notin> key ` set xs \<Longrightarrow> upsert key x xs = xs @ [x]"
  by (induction xs) auto

lemma topic_step_topics:
  assumes "topic_step uuid rid pos td w = (None, w')"
    and "uuid (next_id w) \<notin> t_id ` set (topics w)"
  shows "\<exists>tp. topics w' = topics w @ [tp] \<and> t_id tp = uuid (next_id w) \<and> position tp = pos
            \<and> t_roadmap_id tp = rid \<and> subscript td ''TopicName'' = Inr (t_name tp)
            \<and> next_id w < next_id w'"
proof -
  from topic_step_None [OF assms(1)] obtain nm ds ms obs rss where
    nm: "subscript td ''TopicName'' = Inr nm"
    and w': "w' = save_topic \<lparr>t_id = uuid (next_id w), position = pos, t_roadmap_id = rid,
                            t_name = nm, description = ds, milestones = ms\<rparr>
                  (save_resources uuid (uuid (next_id w)) rss
                    (save_objectives uuid (uuid (next_id w)) obs (w\<lparr>next_id := Suc (next_id w)\<rparr>)))"
    by blast
  let ?tp = "\<lparr>t_id = uuid (next_id w), position = pos, t_roadmap_id = rid,
                            t_name = nm, description = ds, milestones = ms\<rparr>"
  have "topics w' = upsert t_id ?tp (topics w)"
    by (simp add: w' save_topic_def save_objectives_fields save_resources_fields)
  also have "\<dots> = topics w @ [?tp]"
    using assms(2) by (intro upsert_fresh) simp
  finally have t: "topics w' = topics w @ [?tp]" .
  have n: "next_id w < next_id w'"
    by (simp add: w' save_topic_def save_objectives_fields save_resources_fields)
  show ?thesis
    apply (rule exI [of _ ?tp])
    using t n nm apply simp
    done
qed

lemma topics_loop_topics:
  assumes "topics_loop uuid rid pos tds w = (None, w')"
    and "inj_on uuid {next_id w..}"
    and "\<forall>n\<ge>next_id w. uuid n \<notin> t_id ` set (topics w)"
  shows "\<exists>new. topics w' = topics w @ new
            \<and> map position new = [pos .. pos + int (length tds) - 1]
            \<and> map (\<lambda>t. Inr (t_name t)) new = map (\<lambda>td. subscript td ''TopicName'') tds
            \<and> list_all (\<lambda>t. t_roadmap_id t = rid) new"
  using assms
proof (induction tds arbitrary: w pos)
  case Nil
  then show ?case by simp
next
  case (Cons td tds)
  obtain r1 w1 where s: "topic_step uuid rid pos td w = (r1, w1)"
    by (cases "topic_step uuid rid pos td w")
  have r1: "r1 = None" using Cons.prems(1) s by (cases r1) simp_all
  have rest: "topics_loop uuid rid (pos + 1) tds w1 = (None, w')"
    using Cons.prems(1) s r1 by simp
  have f0: "uuid (next_id w) \<notin> t_id ` set (topics w)" using Cons.prems(3) by simp
  from topic_step_topics [OF s [unfolded r1] f0] obtain tp where
    tp: "topics w1 = topics w @ [tp]" "t_id tp = uuid (next_id w)" "position tp = pos"
      "t_roadmap_id tp = rid" "subscript td ''TopicName'' = Inr (t_name tp)"
      "next_id w < next_id w1"
    by blast
  have inj1: "inj_on uuid {next_id w1..}"
    using Cons.prems(2) tp(6) by (auto intro: inj_on_subset)
  have fresh1: "\<forall>n\<ge>next_id w1. uuid n \<notin> t_id ` set (topics w1)"
  proof (intro allI impI)
    fix n assume n: "next_id w1 \<le> n"
    then have "next_id w \<le> n" "n \<noteq> next_id w" using tp(6) by simp_all
    then have "uuid n \<noteq> uuid (next_id w)"
      using Cons.prems(2) by (auto simp: inj_on_def)
    moreover have "uuid n \<notin> t_id ` set (topics w)"
      using Cons.prems(3) \<open>next_id w \<le> n\<close> by simp
    ultimately show "uuid n \<notin> t_id ` set (topics w1)" using tp(1,2) by auto
  qed
  from Cons.IH [OF rest inj1 fresh1] obtain new where
    new: "topics w' = topics w1 @ new"
      "map position new = [pos + 1 .. pos + 1 + int (length tds) - 1]"
      "map (\<lambda>t. Inr (t_name t)) new = map (\<lambda>td. subscript td ''TopicName'') tds"
      "list_all (\<lambda>t. t_roadmap_id t = rid) new"
    by blast
  have up: "[pos .. pos + int (length (td # tds)) - 1] = pos # [pos + 1 .. pos + 1 + int (length tds) - 1]"
    by (subst upto_rec1) (simp_all add: algebra_simps)
  show ?case
    apply (rule exI [of _ "tp # new"])
    using new tp(1,3,4,5) up apply simp
    done
qed


lemma show_roadmap_cong: "roadmaps w = roadmaps w' \<Longrightarrow> show_roadmap w i = show_roadmap w' i"
  by (simp add: show_roadmap_def)

subsection \<open>The requests that are accepted\<close>

lemma has_keyE: "has_key x k \<Longrightarrow> \<exists>v. subscript x k = Inr v"
  by (auto simp: has_key_def split: sum.splits)

lemma iterable_atE:
  "iterable_at x k \<Longrightarrow> \<exists>v items. subscript x k = Inr v \<and> py_iter v = Inr items"
  by (auto simp: iterable_at_def split: sum.splits)

lemma topic_step_valid:
  assumes "valid_topic_entry td"
  shows "fst (topic_step uuid rid pos td w) = None"
proof -
  from assms obtain nm ds ms lo obs rl rss where
    "subscript td ''TopicName'' = Inr nm" "subscript td ''Descriptions'' = Inr ds"
    "subscript td ''Milestones'' = Inr ms"
    "subscript td ''LearningObjectives'' = Inr lo" "py_iter lo = Inr obs"
    "subscript td ''Resources'' = Inr rl" "py_iter rl = Inr rss"
    unfolding valid_topic_entry_def
    by (metis has_keyE iterable_atE)
  then show ?thesis by (simp add: topic_step_def Let_def)
qed

lemma topic_step_invalid:
  assumes "\<not> valid_topic_entry td"
  shows "fst (topic_step uuid rid pos td w) \<noteq> None"
  using assms unfolding valid_topic_entry_def has_key_def iterable_at_def topic_step_def
  by (auto split: sum.splits simp: Let_def)

lemma topics_loop_valid:
  "list_all valid_topic_entry tds \<Longrightarrow> fst (topics_loop uuid rid pos tds w) = None"
proof (induction tds arbitrary: w pos)
  case Nil
  then show ?case by simp
next
  case (Cons td tds)
  obtain r1 w1 where s: "topic_step uuid rid pos td w = (r1, w1)"
    by (cases "topic_step uuid rid pos td w")
  have "r1 = None" using topic_step_valid [of td uuid rid pos w] Cons.prems s by simp
  then show ?case using s Cons.IH [where w = w1 and pos = "pos + 1"] Cons.prems by simp
qed

lemma topics_loop_invalid:
  "\<not> list_all valid_topic_entry tds \<Longrightarrow> fst (topics_loop uuid rid pos tds w) \<noteq> None"
proof (induction tds arbitrary: w pos)
  case Nil
  then show ?case by simp
next
  case (Cons td tds)
  obtain r1 w1 where s: "topic_step uuid rid pos td w = (r1, w1)"
    by (cases "topic_step uuid rid pos td w")
  show ?case
  proof (cases r1)
    case (Some e)
    then show ?thesis using s by simp
  next
    case None
    then have "valid_topic_entry td"
      using topic_step_invalid [of td uuid rid pos w] s by auto
    then have "\<not> list_all valid_topic_entry tds" using Cons.prems by simp
    then show ?thesis using Cons.IH [where w = w1 and pos = "pos + 1"] s None by simp
  qed
qed

text \<open>A request of that shape is answered with a response, and no other request is.\<close>

lemma create_roadmap_valid:
  assumes "valid_request w req"
  shows "\<exists>resp w'. create_roadmap uuid now req w = (Inr resp, w')"
proof -
  from assms obtain user_id rr where
    u: "json_get req ''user_id'' = Inr user_id" "truthy user_id" "show_user w user_id \<noteq> None"
    and r: "json_get req ''Roadmap'' = Inr rr" "valid_payload rr"
    unfolding valid_request_def by (auto split: sum.splits)
  from u(3) obtain usr where usr: "show_user w user_id = Some usr" by auto
  from r(2) obtain ti intro info tj entries where
    p: "truthy rr" "subscript rr ''Title'' = Inr ti" "subscript rr ''Introduction'' = Inr intro"
      "subscript rr ''AdditionalInfo'' = Inr info" "subscript rr ''Topics'' = Inr tj"
      "py_iter tj = Inr entries" "list_all valid_topic_entry entries"
    unfolding valid_payload_def has_key_def by (auto split: sum.splits)
  define w1 where "w1 = save_roadmap \<lparr>r_id = uuid (next_id w), r_user_id = user_id, title = ti,
                    introduction = intro, AdditionalInfo = info, planning = True,
                    in_progress = False, completed = False, created_at = now\<rparr>
                 (w\<lparr>next_id := Suc (next_id w)\<rparr>)"
  obtain r2 w2 where l: "topics_loop uuid (uuid (next_id w)) 1 entries w1 = (r2, w2)"
    by (cases "topics_loop uuid (uuid (next_id w)) 1 entries w1")
  have "r2 = None"
    using topics_loop_valid [OF p(7), of uuid "uuid (next_id w)" 1 w1] l by simp
  then have "create_roadmap uuid now req w =
      (Inr (jsonify (JObj [(''roadmap_id'', JStr (uuid (next_id w)))]) 201), save_user usr w2)"
    using u(1,2) r(1) usr p(1-6) l
    by (simp add: create_roadmap_def Let_def w1_def)
  then show ?thesis by blast
qed

lemma create_roadmap_valid_iff:
  "valid_request w req = (\<exists>resp w'. create_roadmap uuid now req w = (Inr resp, w'))"
proof
  assume "valid_request w req"
  then show "\<exists>resp w'. create_roadmap uuid now req w = (Inr resp, w')"
    by (rule create_roadmap_valid)
next
  assume "\<exists>resp w'. create_roadmap uuid now req w = (Inr resp, w')"
  then obtain resp w' where run: "create_roadmap uuid now req w = (Inr resp, w')" by blast
  show "valid_request w req"
  proof (rule ccontr)
    assume n: "\<not> valid_request w req"
    from create_roadmap_Inr [OF run] obtain user_id rr usr ti intro info tj entries w2 where
      f: "json_get req ''user_id'' = Inr user_id" "json_get req ''Roadmap'' = Inr rr"
        "show_user w user_id = Some usr" "subscript rr ''Topics'' = Inr tj"
        "py_iter tj = Inr entries"
      and loop: "topics_loop uuid (uuid (next_id w)) 1 entries
              (save_roadmap \<lparr>r_id = uuid (next_id w), r_user_id = user_id, title = ti,
                    introduction = intro, AdditionalInfo = info, planning = True,
                    in_progress = False, completed = False, created_at = now\<rparr>
                 (w\<lparr>next_id := Suc (next_id w)\<rparr>)) = (None, w2)"
      by blast
    have ok: "list_all valid_topic_entry entries"
      using topics_loop_invalid [of entries uuid "uuid (next_id w)" 1] loop
      by (metis fst_conv)
    have "truthy user_id \<and> truthy rr \<and> has_key rr ''Title'' \<and> has_key rr ''Introduction''
        \<and> has_key rr ''AdditionalInfo''"
      using run f unfolding create_roadmap_def has_key_def
      by (auto split: sum.splits if_splits simp: abort_def)
    then have "valid_request w req"
      using f ok by (simp add: valid_request_def valid_payload_def)
    with n show False by simp
  qed
qed

subsection \<open>The order of the topics\<close>

text \<open>
  After a run that ended with a response the topics of the new roadmap are stored in the
  order of the payload, at the positions 1, 2, 3, ..., and \<open>view_roadmap\<close> answers with
  them in that order from any permutation of the topic table.
\<close>

lemma topics_in_order_after_success:
  assumes run: "create_roadmap uuid now req w = (Inr resp, w')"
    and inj: "inj_on uuid {next_id w..}"
    and fresh_t: "\<forall>n\<ge>next_id w. uuid n \<notin> t_id ` set (topics w)"
    and fresh_r: "uuid (next_id w) \<notin> t_roadmap_id ` set (topics w)"
    and store: "roadmaps w'' = roadmaps w'" "mset (topics w'') = mset (topics w')"
  shows "\<exists>rid rr tj entries rm obs tps rss.
      resp = jsonify (JObj [(''roadmap_id'', JStr rid)]) 201
    \<and> json_get req ''Roadmap'' = Inr rr \<and> subscript rr ''Topics'' = Inr tj
    \<and> py_iter tj = Inr entries
    \<and> view_roadmap rid w'' = (Inr \<lparr>status = 200, content = RoadmapDetail rm obs tps rss\<rparr>, w'')
    \<and> fetch_topics w' rid = tps
    \<and> map position tps = [1..int (length entries)]
    \<and> map (\<lambda>t. Inr (t_name t)) tps = map (\<lambda>e. subscript e ''TopicName'') entries"
proof -
  from create_roadmap_Inr [OF run] obtain user_id rr usr ti intro info tj entries w2 where
    rr: "json_get req ''Roadmap'' = Inr rr" "subscript rr ''Topics'' = Inr tj"
      "py_iter tj = Inr entries"
    and loop: "topics_loop uuid (uuid (next_id w)) 1 entries
              (save_roadmap \<lparr>r_id = uuid (next_id w), r_user_id = user_id, title = ti,
                    introduction = intro, AdditionalInfo = info, planning = True,
                    in_progress = False, completed = False, created_at = now\<rparr>
                 (w\<lparr>next_id := Suc (next_id w)\<rparr>)) = (None, w2)"
    and w': "w' = save_user usr w2"
    and resp: "resp = jsonify (JObj [(''roadmap_id'', JStr (uuid (next_id w)))]) 201"
    by blast
  define rid where "rid = uuid (next_id w)"
  define rm where "rm = \<lparr>r_id = rid, r_user_id = user_id, title = ti,
                    introduction = intro, AdditionalInfo = info, planning = True,
                    in_progress = False, completed = False, created_at = now\<rparr>"
  define w1 where "w1 = save_roadmap rm (w\<lparr>next_id := Suc (next_id w)\<rparr>)"
  have loop1: "topics_loop uuid rid 1 entries w1 = (None, w2)"
    using loop by (simp add: w1_def rm_def rid_def)
  have t1: "topics w1 = topics w" and n1: "next_id w1 = Suc (next_id w)"
    by (simp_all add: w1_def save_roadmap_def)
  have inj1: "inj_on uuid {next_id w1..}"
    using inj n1 by (auto intro: inj_on_subset)
  have fresh1: "\<forall>n\<ge>next_id w1. uuid n \<notin> t_id ` set (topics w1)"
    using fresh_t n1 t1 by simp
  from topics_loop_topics [OF loop1 inj1 fresh1] obtain new where
    new: "topics w2 = topics w1 @ new"
      "map position new = [1 .. 1 + int (length entries) - 1]"
      "map (\<lambda>t. Inr (t_name t)) new = map (\<lambda>td. subscript td ''TopicName'') entries"
      "list_all (\<lambda>t. t_roadmap_id t = rid) new"
    by blast
  have tw': "topics w' = topics w @ new" using new(1) t1 by (simp add: w' save_user_def)
  have old: "filter (\<lambda>t. t_roadmap_id t = rid) (topics w) = []"
    using fresh_r by (force simp: filter_empty_conv rid_def)
  have keep: "filter (\<lambda>t. t_roadmap_id t = rid) new = new"
    using new(4) by (simp add: list_all_iff)
  have "mset (fetch_topics w'' rid) = filter_mset (\<lambda>t. t_roadmap_id t = rid) (mset (topics w''))"
    by (simp add: fetch_topics_def)
  also have "\<dots> = mset (filter (\<lambda>t. t_roadmap_id t = rid) (topics w @ new))"
    using store(2) tw' by simp
  also have "\<dots> = mset new" using old keep by simp
  finally have m: "mset (fetch_topics w'' rid) = mset new" .
  have pos: "map position new = [1..int (length entries)]" using new(2) by simp
  have srt: "sort_key position (fetch_topics w'' rid) = new"
    using m by (rule sort_key_unique) (simp_all add: pos)
  have "roadmaps w2 = roadmaps w1"
    using topics_loop_stable [of uuid rid 1 entries w1] loop1 by simp
  then have "roadmaps w'' = roadmaps w1" using store(1) by (simp add: w' save_user_def)
  then have "show_roadmap w'' rid = show_roadmap w1 rid" by (rule show_roadmap_cong)
  also have "\<dots> = Some rm"
    using show_roadmap_save [of rm "w\<lparr>next_id := Suc (next_id w)\<rparr>"]
    by (simp add: w1_def rm_def)
  finally have sh: "show_roadmap w'' rid = Some rm" .
  have rmid: "r_id rm = rid" by (simp add: rm_def)
  have view: "view_roadmap rid w'' =
      (Inr \<lparr>status = 200,
            content = RoadmapDetail rm
              (concat (map (\<lambda>i. fetch_objectives w'' (t_id i)) (fetch_topics w'' rid)))
              new
              (concat (map (\<lambda>i. fetch_resources w'' (t_id i)) (fetch_topics w'' rid)))\<rparr>, w'')"
    by (simp add: view_roadmap_def sh rmid srt Let_def)
  have stored: "fetch_topics w' rid = new"
    using tw' old keep by (simp add: fetch_topics_def)
  show ?thesis
    apply (rule exI [of _ rid])
    apply (rule exI [of _ rr])
    apply (rule exI [of _ tj])
    apply (rule exI [of _ entries])
    apply (rule exI [of _ rm])
    apply (intro exI)
    apply (simp only: view)
    using resp rr pos new(3) stored apply (simp add: rid_def)
    done
qed

text \<open>
  Claim C5: for every request that names a stored user and carries a payload with the
  fields of a roadmap and a collection of topic entries, provided the constructors hand
  out ids the store has not seen, \<open>create_roadmap\<close> answers 201, the topics are stored
  at the positions 1, 2, 3, ... in the order of the payload, and \<open>view_roadmap\<close>
  answers with them in that order, whatever the order in which the store iterates over
  its topics.
\<close>

theorem topics_come_back_in_input_order:
  assumes valid: "valid_request w req"
    and inj: "inj_on uuid {next_id w..}"
    and fresh_t: "\<forall>n\<ge>next_id w. uuid n \<notin> t_id ` set (topics w)"
    and fresh_r: "uuid (next_id w) \<notin> t_roadmap_id ` set (topics w)"
    and store: "roadmaps w'' = roadmaps (snd (create_roadmap uuid now req w))"
      "mset (topics w'') = mset (topics (snd (create_roadmap uuid now req w)))"
  shows "\<exists>rid rr tj entries rm obs tps rss.
      fst (create_roadmap uuid now req w) = Inr (jsonify (JObj [(''roadmap_id'', JStr rid)]) 201)
    \<and> json_get req ''Roadmap'' = Inr rr \<and> subscript rr ''Topics'' = Inr tj
    \<and> py_iter tj = Inr entries
    \<and> view_roadmap rid w'' = (Inr \<lparr>status = 200, content = RoadmapDetail rm obs tps rss\<rparr>, w'')
    \<and> fetch_topics (snd (create_roadmap uuid now req w)) rid = tps
    \<and> map position tps = [1..int (length entries)]
    \<and> map (\<lambda>t. Inr (t_name t)) tps = map (\<lambda>e. subscript e ''TopicName'') entries"
proof -
  from create_roadmap_valid [OF valid] obtain resp w' where
    run: "create_roadmap uuid now req w = (Inr resp, w')"
    by blast
  have store': "roadmaps w'' = roadmaps w'" "mset (topics w'') = mset (topics w')"
    using store run by simp_all
  from topics_in_order_after_success [OF run inj fresh_t fresh_r store']
  show ?thesis by (simp add: run)
qed

subsection \<open>A run on example data\<close>

lemmas example_defs = tally_def topic_entry_def req_abc_def old_topic_def w_busy_def rm_abc_def
  topic_a_def topic_b_def topic_c_def obj_read_def obj_write_def res_a_def w_abc_def ada_def rm_plan_def

lemma run_abc:
  "create_roadmap tally 7 req_abc w_busy =
     (Inr \<lparr>status = 201, content = Json (JObj [(''roadmap_id'', JStr ''i'')])\<rparr>, w_abc)"
  by (simp add: example_defs create_roadmap_def topic_step_def jsonify_def Let_def
      save_roadmap_def save_topic_def save_objective_def save_resource_def save_user_def
      show_roadmap_def show_topic_def)

lemma inj_tally: "inj_on tally A"
proof (rule inj_onI)
  fix m n assume "tally m = tally n"
  then have "length (tally m) = length (tally n)" by simp
  then show "m = n" by (simp add: tally_def)
qed

lemma tally_fresh_busy:
  "\<forall>n\<ge>next_id w_busy. tally n \<notin> t_id ` set (topics w_busy)"
  "tally (next_id w_busy) \<notin> t_roadmap_id ` set (topics w_busy)"
  by (simp_all add: w_busy_def old_topic_def tally_def)

lemma valid_req_abc: "valid_request w_busy req_abc"
  by (simp add: valid_request_def valid_payload_def valid_topic_entry_def has_key_def
      iterable_at_def req_abc_def topic_entry_def w_busy_def ada_def)

theorem topics_come_back_in_input_order_witness:
  "valid_request w_busy req_abc
   \<and> create_roadmap tally 7 req_abc w_busy =
     (Inr \<lparr>status = 201, content = Json (JObj [(''roadmap_id'', JStr ''i'')])\<rparr>, w_abc)
   \<and> fetch_topics w_abc_shuffled ''i'' = [topic_c, topic_a, topic_b]
   \<and> (\<exists>rm obs rss.
         view_roadmap ''i'' w_abc_shuffled =
           (Inr \<lparr>status = 200, content = RoadmapDetail rm obs [topic_a, topic_b, topic_c] rss\<rparr>,
            w_abc_shuffled))
   \<and> map position [topic_a, topic_b, topic_c] = [1, 2, 3]
   \<and> map t_name [topic_a, topic_b, topic_c] = [JStr ''A'', JStr ''B'', JStr ''C'']"
proof -
  have store: "roadmaps w_abc_shuffled = roadmaps (snd (create_roadmap tally 7 req_abc w_busy))"
    "mset (topics w_abc_shuffled) = mset (topics (snd (create_roadmap tally 7 req_abc w_busy)))"
    by (simp_all add: run_abc w_abc_shuffled_def w_abc_def)
  from topics_come_back_in_input_order [OF valid_req_abc inj_tally tally_fresh_busy store]
  obtain rid rm obs tps rss where
    r: "fst (create_roadmap tally 7 req_abc w_busy)
          = Inr (jsonify (JObj [(''roadmap_id'', JStr rid)]) 201)"
    and v: "view_roadmap rid w_abc_shuffled =
           (Inr \<lparr>status = 200, content = RoadmapDetail rm obs tps rss\<rparr>, w_abc_shuffled)"
    and st: "fetch_topics (snd (create_roadmap tally 7 req_abc w_busy)) rid = tps"
    by blast
  have rid: "rid = ''i''" using r by (simp add: run_abc jsonify_def)
  have "fetch_topics w_abc ''i'' = [topic_a, topic_b, topic_c]"
    by (simp add: fetch_topics_def w_abc_def old_topic_def topic_a_def topic_b_def topic_c_def)
  then have tps: "tps = [topic_a, topic_b, topic_c]" using st rid by (simp add: run_abc)
  have f: "fetch_topics w_abc_shuffled ''i'' = [topic_c, topic_a, topic_b]"
    by (simp add: fetch_topics_def w_abc_shuffled_def old_topic_def topic_a_def topic_b_def topic_c_def)
  have v': "view_roadmap ''i'' w_abc_shuffled =
           (Inr \<lparr>status = 200, content = RoadmapDetail rm obs [topic_a, topic_b, topic_c] rss\<rparr>,
            w_abc_shuffled)"
    using v rid tps by simp
  have p: "map position [topic_a, topic_b, topic_c] = [1, 2, 3]"
    "map t_name [topic_a, topic_b, topic_c] = [JStr ''A'', JStr ''B'', JStr ''C'']"
    by (simp_all add: topic_a_def topic_b_def topic_c_def)
  show ?thesis
    apply (intro conjI exI)
         apply (rule valid_req_abc)
        apply (rule run_abc)
       apply (rule f)
      apply (rule v')
     apply (rule p(1))
    apply (rule p(2))
    done
qed

subsection \<open>The status flags of a new roadmap\<close>

lemma journal_after_roadmap:
  "journal (save_roadmap rm (w\<lparr>next_id := Suc (next_id w)\<rparr>)) = journal w @ [SavedRoadmap rm]"
  "show_roadmap (save_roadmap rm (w\<lparr>next_id := Suc (next_id w)\<rparr>)) (r_id rm) \<noteq> None"
  using show_roadmap_save [of rm "w\<lparr>next_id := Suc (next_id w)\<rparr>"]
  by (simp_all add: save_roadmap_def)

text \<open>
  Claim C7: a call that ends with a response has saved one roadmap, the one whose id it
  answers with, and that roadmap is stored with \<open>planning\<close> true and the two other
  flags false.
\<close>

theorem create_roadmap_initial_flags:
  assumes "create_roadmap uuid now req w = (Inr resp, w')"
  shows "\<exists>rm js. resp = jsonify (JObj [(''roadmap_id'', JStr (r_id rm))]) 201
           \<and> show_roadmap w' (r_id rm) = Some rm
           \<and> journal w' = journal w @ js \<and> saved_roadmaps js = [rm]
           \<and> planning rm \<and> \<not> in_progress rm \<and> \<not> completed rm"
proof -
  from create_roadmap_Inr [OF assms] obtain user_id usr ti intro info entries w2 where
    loop: "topics_loop uuid (uuid (next_id w)) 1 entries
              (save_roadmap \<lparr>r_id = uuid (next_id w), r_user_id = user_id, title = ti,
                    introduction = intro, AdditionalInfo = info, planning = True,
                    in_progress = False, completed = False, created_at = now\<rparr>
                 (w\<lparr>next_id := Suc (next_id w)\<rparr>)) = (None, w2)"
    and w': "w' = save_user usr w2"
    and resp: "resp = jsonify (JObj [(''roadmap_id'', JStr (uuid (next_id w)))]) 201"
    by blast
  define rm where "rm = \<lparr>r_id = uuid (next_id w), r_user_id = user_id, title = ti,
                    introduction = intro, AdditionalInfo = info, planning = True,
                    in_progress = False, completed = False, created_at = now\<rparr>"
  define w1 where "w1 = save_roadmap rm (w\<lparr>next_id := Suc (next_id w)\<rparr>)"
  have rid: "r_id rm = uuid (next_id w)" by (simp add: rm_def)
  have loop1: "topics_loop uuid (uuid (next_id w)) 1 entries w1 = (None, w2)"
    using loop by (simp add: w1_def rm_def)
  have j1: "journal w1 = journal w @ [SavedRoadmap rm]"
    and s1: "show_roadmap w1 (uuid (next_id w)) \<noteq> None"
    using journal_after_roadmap [of rm w] rid by (simp_all add: w1_def)
  from topics_loop_journal [OF s1 loop1] obtain js where
    js: "journal w2 = journal w1 @ js" "saved_roadmaps js = []"
    by blast
  have "roadmaps w2 = roadmaps w1"
    using topics_loop_stable [of uuid "uuid (next_id w)" 1 entries w1] loop1 by simp
  then have "roadmaps w' = roadmaps w1" by (simp add: w' save_user_def)
  then have "show_roadmap w' (r_id rm) = show_roadmap w1 (r_id rm)" by (rule show_roadmap_cong)
  also have "\<dots> = Some rm" unfolding w1_def by (rule show_roadmap_save)
  finally have stored: "show_roadmap w' (r_id rm) = Some rm" .
  have j: "journal w' = journal w @ (SavedRoadmap rm # js @ [SavedUser usr])"
    using j1 js(1) by (simp add: w' save_user_def)
  have only: "saved_roadmaps (SavedRoadmap rm # js @ [SavedUser usr]) = [rm]"
    using js(2) by (simp add: saved_roadmaps_append)
  have flags: "planning rm \<and> \<not> in_progress rm \<and> \<not> completed rm" by (simp add: rm_def)
  show ?thesis
    apply (rule exI [of _ rm])
    apply (rule exI [of _ "SavedRoadmap rm # js @ [SavedUser usr]"])
    using resp rid stored j only flags apply simp
    done
qed

lemma show_w_abc_i: "show_roadmap w_abc ''i'' = Some rm_abc"
  by (simp add: show_roadmap_def w_abc_def rm_abc_def rm_plan_def)

theorem create_roadmap_initial_flags_witness:
  "create_roadmap tally 7 req_abc w_busy =
     (Inr \<lparr>status = 201, content = Json (JObj [(''roadmap_id'', JStr ''i'')])\<rparr>, w_abc)
   \<and> show_roadmap w_abc ''i'' = Some rm_abc
   \<and> saved_roadmaps (journal w_abc) = [rm_abc]
   \<and> planning rm_abc \<and> \<not> in_progress rm_abc \<and> \<not> completed rm_abc"
proof -
  from create_roadmap_initial_flags [OF run_abc] obtain rm js where
    r: "\<lparr>status = 201, content = Json (JObj [(''roadmap_id'', JStr ''i'')])\<rparr>
          = jsonify (JObj [(''roadmap_id'', JStr (r_id rm))]) 201"
    and st: "show_roadmap w_abc (r_id rm) = Some rm"
    and j: "journal w_abc = journal w_busy @ js" "saved_roadmaps js = [rm]"
    and f: "planning rm \<and> \<not> in_progress rm \<and> \<not> completed rm"
    by blast
  have "r_id rm = ''i''" using r by (simp add: jsonify_def)
  then have "rm = rm_abc" using st show_w_abc_i by simp
  moreover have "js = journal w_abc" using j(1) by (simp add: w_busy_def)
  ultimately show ?thesis using run_abc show_w_abc_i j(2) f by simp
qed

subsection \<open>Parents of the saved records\<close>

text \<open>What a run that ends with an exception has gone through.\<close>

lemma create_roadmap_Inl:
  assumes "create_roadmap uuid now req w = (Inl e, w')"
  shows "w' = w
       \<or> (\<exists>user_id ti intro info.
             w' = save_roadmap \<lparr>r_id = uuid (next_id w), r_user_id = user_id, title = ti,
                    introduction = intro, AdditionalInfo = info, planning = True,
                    in_progress = False, completed = False, created_at = now\<rparr>
                 (w\<lparr>next_id := Suc (next_id w)\<rparr>))
       \<or> (\<exists>user_id ti intro info entries.
             topics_loop uuid (uuid (next_id w)) 1 entries
               (save_roadmap \<lparr>r_id = uuid (next_id w), r_user_id = user_id, title = ti,
                    introduction = intro, AdditionalInfo = info, planning = True,
                    in_progress = False, completed = False, created_at = now\<rparr>
                 (w\<lparr>next_id := Suc (next_id w)\<rparr>)) = (Some e, w'))"
  using assms unfolding create_roadmap_def
  by (auto split: sum.splits option.splits if_splits prod.splits simp: Let_def abort_def)

text \<open>
  Claim C9 as stated fails: the loop saves the objectives and resources of a topic before
  the topic itself. In the run on \<open>req_abc\<close> the second record saved is the objective
  \<open>read\<close>, and its topic is not in storage at that moment.
\<close>

theorem objective_saved_before_its_topic:
  "journal w_busy = []
   \<and> journal (snd (create_roadmap tally 7 req_abc w_busy)) ! 1 = SavedObjective obj_read False
   \<and> \<not> list_all parent_present (journal (snd (create_roadmap tally 7 req_abc w_busy)))"
  by (simp add: run_abc) (simp add: w_abc_def w_busy_def)

text \<open>
  Claim C9 as amended: every topic is saved when its roadmap is in storage; and when the
  call ends with a response, the topic of every objective and resource it saved is in
  storage at the end.
\<close>

theorem create_roadmap_parents_stored:
  assumes "create_roadmap uuid now req w = (res, w')"
  shows "\<exists>js. journal w' = journal w @ js \<and> list_all topic_parent_present js
            \<and> (case res of Inl e \<Rightarrow> True | Inr resp \<Rightarrow> list_all (child_topic_stored w') js)"
proof (cases res)
  case (Inr resp)
  from create_roadmap_Inr [OF assms [unfolded Inr]] obtain user_id usr ti intro info entries w2 where
    loop: "topics_loop uuid (uuid (next_id w)) 1 entries
              (save_roadmap \<lparr>r_id = uuid (next_id w), r_user_id = user_id, title = ti,
                    introduction = intro, AdditionalInfo = info, planning = True,
                    in_progress = False, completed = False, created_at = now\<rparr>
                 (w\<lparr>next_id := Suc (next_id w)\<rparr>)) = (None, w2)"
    and w': "w' = save_user usr w2"
    by blast
  define rm where "rm = \<lparr>r_id = uuid (next_id w), r_user_id = user_id, title = ti,
                    introduction = intro, AdditionalInfo = info, planning = True,
                    in_progress = False, completed = False, created_at = now\<rparr>"
  define w1 where "w1 = save_roadmap rm (w\<lparr>next_id := Suc (next_id w)\<rparr>)"
  have rid: "r_id rm = uuid (next_id w)" by (simp add: rm_def)
  have loop1: "topics_loop uuid (uuid (next_id w)) 1 entries w1 = (None, w2)"
    using loop by (simp add: w1_def rm_def)
  have j1: "journal w1 = journal w @ [SavedRoadmap rm]"
    and s1: "show_roadmap w1 (uuid (next_id w)) \<noteq> None"
    using journal_after_roadmap [of rm w] rid by (simp_all add: w1_def)
  from topics_loop_journal [OF s1 loop1] obtain js where
    js: "journal w2 = journal w1 @ js" "list_all topic_parent_present js"
      "list_all (child_topic_stored w2) js"
    by blast
  have same: "topics w' = topics w2" by (simp add: w' save_user_def)
  have c: "list_all (child_topic_stored w') js"
    using child_topic_stored_mono [of w2 w' js] js(3) same by simp
  have "journal w' = journal w @ (SavedRoadmap rm # js @ [SavedUser usr])"
    using j1 js(1) by (simp add: w' save_user_def)
  moreover have "list_all topic_parent_present (SavedRoadmap rm # js @ [SavedUser usr])"
    using js(2) by simp
  moreover have "list_all (child_topic_stored w') (SavedRoadmap rm # js @ [SavedUser usr])"
    using c by simp
  ultimately show ?thesis using Inr by auto
next
  case (Inl e)
  from create_roadmap_Inl [OF assms [unfolded Inl]] show ?thesis
  proof (elim disjE exE)
    assume "w' = w"
    then show ?thesis using Inl by simp
  next
    fix user_id ti intro info
    assume "w' = save_roadmap \<lparr>r_id = uuid (next_id w), r_user_id = user_id, title = ti,
                    introduction = intro, AdditionalInfo = info, planning = True,
                    in_progress = False, completed = False, created_at = now\<rparr>
                 (w\<lparr>next_id := Suc (next_id w)\<rparr>)"
    then show ?thesis using Inl by (simp add: journal_after_roadmap(1))
  next
    fix user_id ti intro info entries
    define rm where "rm = \<lparr>r_id = uuid (next_id w), r_user_id = user_id, title = ti,
                    introduction = intro, AdditionalInfo = info, planning = True,
                    in_progress = False, completed = False, created_at = now\<rparr>"
    define w1 where "w1 = save_roadmap rm (w\<lparr>next_id := Suc (next_id w)\<rparr>)"
    assume "topics_loop uuid (uuid (next_id w)) 1 entries
               (save_roadmap \<lparr>r_id = uuid (next_id w), r_user_id = user_id, title = ti,
                    introduction = intro, AdditionalInfo = info, planning = True,
                    in_progress = False, completed = False, created_at = now\<rparr>
                 (w\<lparr>next_id := Suc (next_id w)\<rparr>)) = (Some e, w')"
    then have loop1: "topics_loop uuid (uuid (next_id w)) 1 entries w1 = (Some e, w')"
      by (simp add: w1_def rm_def)
    have rid: "r_id rm = uuid (next_id w)" by (simp add: rm_def)
    have j1: "journal w1 = journal w @ [SavedRoadmap rm]"
      and s1: "show_roadmap w1 (uuid (next_id w)) \<noteq> None"
      using journal_after_roadmap [of rm w] rid by (simp_all add: w1_def)
    from topics_loop_journal [OF s1 loop1] obtain js where
      js: "journal w' = journal w1 @ js" "list_all topic_parent_present js"
      by blast
    have "journal w' = journal w @ (SavedRoadmap rm # js)" using j1 js(1) by simp
    moreover have "list_all topic_parent_present (SavedRoadmap rm # js)" using js(2) by simp
    ultimately show ?thesis using Inl by auto
  qed
qed

theorem create_roadmap_parents_stored_witness:
  "create_roadmap tally 7 req_abc w_busy =
     (Inr \<lparr>status = 201, content = Json (JObj [(''roadmap_id'', JStr ''i'')])\<rparr>, w_abc)
   \<and> list_all topic_parent_present (journal w_abc)
   \<and> list_all (child_topic_stored w_abc) (journal w_abc)"
proof -
  from create_roadmap_parents_stored [OF run_abc] obtain js where
    js: "journal w_abc = journal w_busy @ js" "list_all topic_parent_present js"
      "list_all (child_topic_stored w_abc) js"
    by auto
  have "js = journal w_abc" using js(1) by (simp add: w_busy_def)
  then show ?thesis using run_abc js(2,3) by simp
qed

subsection \<open>Payloads that lack a field\<close>

lemma subscript_error_unhandled:
  "subscript x k = Inl e \<Longrightarrow>
   ((\<exists>k'. e = KeyError k') \<or> (\<exists>m. e = TypeError m))
   \<and> dispatch (Inl e) = \<lparr>status = 500, content = Html\<rparr>"
  by (cases x) (auto split: option.splits)

text \<open>
  Claim C4 as stated fails: a payload without \<open>Topics\<close> raises KeyError after the
  roadmap has been saved, and the framework answers 500; a payload without \<open>Title\<close>
  raises KeyError too, answered 500 and not 400.
\<close>

theorem create_roadmap_missing_topics_persists_roadmap:
  "create_roadmap tally 7 req_no_topics w_busy =
     (Inl (KeyError ''Topics''),
      w_busy\<lparr>roadmaps := [rm_plan, rm_abc], next_id := 1, journal := [SavedRoadmap rm_abc]\<rparr>)
   \<and> dispatch (Inl (KeyError ''Topics'')) = \<lparr>status = 500, content = Html\<rparr>
   \<and> create_roadmap tally 7 req_no_title w_busy = (Inl (KeyError ''Title''), w_busy)
   \<and> dispatch (Inl (KeyError ''Title'')) = \<lparr>status = 500, content = Html\<rparr>"
  by (simp add: create_roadmap_def req_no_topics_def req_no_title_def w_busy_def ada_def
      rm_plan_def rm_abc_def tally_def save_roadmap_def Let_def topic_entry_def)

text \<open>
  Claim C4 as amended: the only check on the payload is that the entry \<open>Roadmap\<close> is
  present and not empty; failing it aborts with 400 and the body \<open>Error\<close>. A payload
  that passes it and lacks \<open>Title\<close>, \<open>Introduction\<close> or \<open>AdditionalInfo\<close> raises
  KeyError (TypeError when it is not an object), which no handler takes: the answer is the
  framework's 500. In both cases the world is left as it was.
\<close>

theorem create_roadmap_unvalidated_fields:
  assumes "json_get req ''user_id'' = Inr user_id" and "truthy user_id"
    and "json_get req ''Roadmap'' = Inr rr"
  shows "(\<not> truthy rr \<longrightarrow>
            create_roadmap uuid now req w = (Inl (HTTPException 400 ''Missing Roadmap''), w)
          \<and> dispatch (Inl (HTTPException 400 ''Missing Roadmap'')) =
              \<lparr>status = 400, content = Json (JObj [(''Error'', JStr ''Missing Roadmap'')])\<rparr>)
       \<and> (truthy rr \<and> show_user w user_id \<noteq> None
            \<and> (isl (subscript rr ''Title'') \<or> isl (subscript rr ''Introduction'')
                \<or> isl (subscript rr ''AdditionalInfo'')) \<longrightarrow>
            (\<exists>e. create_roadmap uuid now req w = (Inl e, w)
                \<and> ((\<exists>k. e = KeyError k) \<or> (\<exists>m. e = TypeError m))
                \<and> dispatch (Inl e) = \<lparr>status = 500, content = Html\<rparr>))"
proof (intro conjI impI)
  assume "\<not> truthy rr"
  then show "create_roadmap uuid now req w = (Inl (HTTPException 400 ''Missing Roadmap''), w)"
    using assms by (simp add: create_roadmap_def abort_def)
next
  show "dispatch (Inl (HTTPException 400 ''Missing Roadmap'')) =
              \<lparr>status = 400, content = Json (JObj [(''Error'', JStr ''Missing Roadmap'')])\<rparr>"
    by (simp add: bad_request_def jsonify_def)
next
  assume a: "truthy rr \<and> show_user w user_id \<noteq> None
            \<and> (isl (subscript rr ''Title'') \<or> isl (subscript rr ''Introduction'')
                \<or> isl (subscript rr ''AdditionalInfo''))"
  then obtain usr where usr: "show_user w user_id = Some usr" by auto
  have pre: "create_roadmap uuid now req w =
     (case subscript rr ''Title'' of
        Inl e \<Rightarrow> (Inl e, w)
      | Inr ti \<Rightarrow>
     (case subscript rr ''Introduction'' of
        Inl e \<Rightarrow> (Inl e, w)
      | Inr intro \<Rightarrow>
     (case subscript rr ''AdditionalInfo'' of
        Inl e \<Rightarrow> (Inl e, w)
      | Inr info \<Rightarrow> create_roadmap uuid now req w)))"
    using assms a usr by (simp add: create_roadmap_def split: sum.splits)
  show "\<exists>e. create_roadmap uuid now req w = (Inl e, w)
                \<and> ((\<exists>k. e = KeyError k) \<or> (\<exists>m. e = TypeError m))
                \<and> dispatch (Inl e) = \<lparr>status = 500, content = Html\<rparr>"
  proof (cases "subscript rr ''Title''")
    case (Inl e)
    then show ?thesis using pre subscript_error_unhandled [OF Inl] by simp
  next
    case t: (Inr ti)
    show ?thesis
    proof (cases "subscript rr ''Introduction''")
      case (Inl e)
      then show ?thesis using pre t subscript_error_unhandled [OF Inl] by simp
    next
      case i: (Inr intro)
      show ?thesis
      proof (cases "subscript rr ''AdditionalInfo''")
        case (Inl e)
        then show ?thesis using pre t i subscript_error_unhandled [OF Inl] by simp
      next
        case (Inr info)
        then show ?thesis using a t i by simp
      qed
    qed
  qed
qed

theorem create_roadmap_unvalidated_fields_witness:
  "create_roadmap tally 7 req_no_roadmap w_busy = (Inl (HTTPException 400 ''Missing Roadmap''), w_busy)
   \<and> dispatch (fst (create_roadmap tally 7 req_no_roadmap w_busy)) =
        \<lparr>status = 400, content = Json (JObj [(''Error'', JStr ''Missing Roadmap'')])\<rparr>
   \<and> snd (create_roadmap tally 7 req_no_title w_busy) = w_busy
   \<and> dispatch (fst (create_roadmap tally 7 req_no_title w_busy)) = \<lparr>status = 500, content = Html\<rparr>"
proof -
  have a: "json_get req_no_roadmap ''user_id'' = Inr (JStr ''u1'')" "truthy (JStr ''u1'')"
    "json_get req_no_roadmap ''Roadmap'' = Inr JNull" "\<not> truthy JNull"
    by (simp_all add: req_no_roadmap_def)
  define rr where "rr = JObj [(''Introduction'', JStr ''Intro''), (''AdditionalInfo'', JStr ''Tips''),
                  (''Topics'', JArr [topic_entry ''A'' [] []])]"
  have b: "json_get req_no_title ''user_id'' = Inr (JStr ''u1'')"
    "json_get req_no_title ''Roadmap'' = Inr rr"
    "truthy rr \<and> show_user w_busy (JStr ''u1'') \<noteq> None
       \<and> (isl (subscript rr ''Title'') \<or> isl (subscript rr ''Introduction'')
            \<or> isl (subscript rr ''AdditionalInfo''))"
    by (simp_all add: req_no_title_def rr_def w_busy_def ada_def)
  from create_roadmap_unvalidated_fields [where uuid = tally and now = 7 and w = w_busy, OF a(1,2,3)] a(4)
  have one: "create_roadmap tally 7 req_no_roadmap w_busy = (Inl (HTTPException 400 ''Missing Roadmap''), w_busy)"
    "dispatch (Inl (HTTPException 400 ''Missing Roadmap'')) =
              \<lparr>status = 400, content = Json (JObj [(''Error'', JStr ''Missing Roadmap'')])\<rparr>"
    by simp_all
  from create_roadmap_unvalidated_fields [where uuid = tally and now = 7 and w = w_busy, OF b(1) a(2) b(2)] b(3)
  obtain e where two: "create_roadmap tally 7 req_no_title w_busy = (Inl e, w_busy)"
    "dispatch (Inl e) = \<lparr>status = 500, content = Html\<rparr>"
    by blast
  show ?thesis using one two by simp
qed

end
